theory Spec2Isabelle
  imports Main "HOL-Library.Word"
begin

section \<open>Strings of the platform\<close>

text \<open>
  A JavaScript string is a sequence of 16-bit code units. String literals of the source
  are written with \<open>str\<close>, which widens each byte of an ASCII literal to a code unit.
\<close>

type_synonym code_unit = "16 word"
type_synonym jsstring = "code_unit list"

definition str :: "string \<Rightarrow> jsstring" where
  "str s = map (\<lambda>c. of_nat (of_char c)) s"

text \<open>
  \<^verbatim>\<open>String.prototype.split(' ')\<close> with a one-character separator: the pieces between
  the separators, at least one piece (the empty string splits into one empty piece).
  \<open>split_acc\<close> carries the piece being read.
\<close>

fun split_acc :: "code_unit \<Rightarrow> jsstring \<Rightarrow> jsstring \<Rightarrow> jsstring list" where
  "split_acc sep cur [] = [cur]"
| "split_acc sep cur (c # cs) =
     (if c = sep then cur # split_acc sep [] cs else split_acc sep (cur @ [c]) cs)"

definition split :: "code_unit \<Rightarrow> jsstring \<Rightarrow> jsstring list" where
  "split sep s = split_acc sep [] s"

text \<open>\<^verbatim>\<open>Array.prototype.join(' ')\<close> on an array of strings.\<close>

fun join :: "code_unit \<Rightarrow> jsstring list \<Rightarrow> jsstring" where
  "join sep [] = []"
| "join sep [x] = x"
| "join sep (x # y # ys) = x @ sep # join sep (y # ys)"

text \<open>\<^verbatim>\<open>value.startsWith('/')\<close> and \<^verbatim>\<open>value.substring(1)\<close>.\<close>

definition startsWith :: "jsstring \<Rightarrow> jsstring \<Rightarrow> bool" where
  "startsWith s p = (take (length p) s = p)"

definition substring :: "nat \<Rightarrow> jsstring \<Rightarrow> jsstring" where
  "substring n s = drop n s"

text \<open>
  The \<^verbatim>\<open>value\<close> of a textarea is read with its newlines normalised: every CR LF pair
  and every remaining CR becomes LF.
\<close>

fun normalize_newlines :: "jsstring \<Rightarrow> jsstring" where
  "normalize_newlines [] = []"
| "normalize_newlines [c] = (if c = 0x0D then [0x0A] else [c])"
| "normalize_newlines (c # d # cs) =
     (if c = 0x0D \<and> d = 0x0A then 0x0A # normalize_newlines cs
      else if c = 0x0D then 0x0A # normalize_newlines (d # cs)
      else c # normalize_newlines (d # cs))"

section \<open>Errors\<close>

text \<open>
  The exceptions the platform raises in this program, and the reason a peer-connection
  operation is rejected with (chosen by the engine, see below). \<open>Unmodelled\<close> is not an
  exception of the program: it marks an input whose treatment needs floating point
  (a JSON number other than a plain natural-number literal of at most \<open>2^53\<close>), on which
  this development says nothing.
\<close>

datatype error =
    InvalidCharacterError
  | SyntaxError
  | TypeError
  | EngineError jsstring
  | Unmodelled

section \<open>base64: btoa and atob\<close>

text \<open>
  \<^verbatim>\<open>btoa\<close> throws InvalidCharacterError on a code unit above U+00FF and otherwise
  encodes the code units as bytes: three bytes give four sextets, a last group of one or
  two bytes gives two or three sextets and is padded with \<open>=\<close> to four characters.
\<close>

definition b64_char :: "nat \<Rightarrow> nat" where
  "b64_char i =
     (if i < 26 then 65 + i
      else if i < 52 then 97 + (i - 26)
      else if i < 62 then 48 + (i - 52)
      else if i = 62 then 43
      else 47)"

fun b64_sextets :: "nat list \<Rightarrow> nat list" where
  "b64_sextets (a # b # c # bs) =
     [a div 4, (a mod 4) * 16 + b div 16, (b mod 16) * 4 + c div 64, c mod 64] @ b64_sextets bs"
| "b64_sextets [a, b] = [a div 4, (a mod 4) * 16 + b div 16, (b mod 16) * 4]"
| "b64_sextets [a] = [a div 4, (a mod 4) * 16]"
| "b64_sextets [] = []"

definition b64_padding :: "nat \<Rightarrow> nat" where
  "b64_padding n = (3 - n mod 3) mod 3"

definition btoa :: "jsstring \<Rightarrow> error + jsstring" where
  "btoa s =
     (if \<exists>c \<in> set s. 0xFF < c then Inl InvalidCharacterError
      else Inr (map (\<lambda>i. of_nat (b64_char i)) (b64_sextets (map unat s))
                @ replicate (b64_padding (length s)) 0x3D))"

text \<open>
  \<^verbatim>\<open>atob\<close> is the forgiving base64 decoder: ASCII whitespace is removed; when the length
  is then a multiple of four, one or two trailing \<open>=\<close> are removed; a length of
  remainder one by four, or a character outside the alphabet, is an
  InvalidCharacterError; each sextet gives six bits, and the four or two bits left
  over by a last group of two or three characters are discarded.
\<close>

definition ascii_whitespace :: "code_unit \<Rightarrow> bool" where
  "ascii_whitespace c \<longleftrightarrow> c = 0x09 \<or> c = 0x0A \<or> c = 0x0C \<or> c = 0x0D \<or> c = 0x20"

definition b64_value :: "nat \<Rightarrow> nat option" where
  "b64_value c =
     (if 65 \<le> c \<and> c \<le> 90 then Some (c - 65)
      else if 97 \<le> c \<and> c \<le> 122 then Some (c - 97 + 26)
      else if 48 \<le> c \<and> c \<le> 57 then Some (c - 48 + 52)
      else if c = 43 then Some 62
      else if c = 47 then Some 63
      else None)"

definition strip_padding :: "jsstring \<Rightarrow> jsstring" where
  "strip_padding d =
     (if length d mod 4 = 0 then
        (if 2 \<le> length d \<and> last d = 0x3D \<and> last (butlast d) = 0x3D then butlast (butlast d)
         else if 1 \<le> length d \<and> last d = 0x3D then butlast d
         else d)
      else d)"

fun b64_bytes :: "nat list \<Rightarrow> nat list" where
  "b64_bytes (a # b # c # d # ss) =
     [a * 4 + b div 16, (b mod 16) * 16 + c div 4, (c mod 4) * 64 + d] @ b64_bytes ss"
| "b64_bytes [a, b, c] = [a * 4 + b div 16, (b mod 16) * 16 + c div 4]"
| "b64_bytes [a, b] = [a * 4 + b div 16]"
| "b64_bytes [a] = []"
| "b64_bytes [] = []"

definition atob :: "jsstring \<Rightarrow> error + jsstring" where
  "atob s =
     (let d = strip_padding (filter (\<lambda>c. \<not> ascii_whitespace c) s) in
      if length d mod 4 = 1 then Inl InvalidCharacterError
      else if \<exists>c \<in> set d. b64_value (unat c) = None then Inl InvalidCharacterError
      else Inr (map of_nat (b64_bytes (map (\<lambda>c. the (b64_value (unat c))) d))))"

section \<open>JSON values, JSON.stringify and JSON.parse\<close>

text \<open>
  The values \<^verbatim>\<open>JSON.parse\<close> returns and \<^verbatim>\<open>JSON.stringify\<close> prints. An object is the
  list of its own properties in creation order. A number is a natural number (exact as
  a double up to \<open>2^53\<close>); the program holds no other number.
\<close>

datatype json =
    JNull
  | JBool bool
  | JNumber nat
  | JString jsstring
  | JArray "json list"
  | JObject "(jsstring \<times> json) list"

subsection \<open>JSON.stringify\<close>

definition hex_digit :: "nat \<Rightarrow> code_unit" where
  "hex_digit i = (if i < 10 then of_nat (48 + i) else of_nat (87 + i))"

text \<open>\<^verbatim>\<open>\uXXXX\<close> with four lower-case hexadecimal digits.\<close>

definition unicode_escape :: "code_unit \<Rightarrow> jsstring" where
  "unicode_escape c =
     (let n = unat c in
      [0x5C, 0x75, hex_digit (n div 4096), hex_digit (n div 256 mod 16),
       hex_digit (n div 16 mod 16), hex_digit (n mod 16)])"

definition leading_surrogate :: "code_unit \<Rightarrow> bool" where
  "leading_surrogate c \<longleftrightarrow> 0xD800 \<le> c \<and> c \<le> 0xDBFF"

definition trailing_surrogate :: "code_unit \<Rightarrow> bool" where
  "trailing_surrogate c \<longleftrightarrow> 0xDC00 \<le> c \<and> c \<le> 0xDFFF"

text \<open>
  One code point of a quoted string: the short escapes, \<^verbatim>\<open>\u\<close> escapes for the other
  control characters and for a surrogate that stands alone, the code unit itself
  otherwise.
\<close>

definition quote_unit :: "code_unit \<Rightarrow> jsstring" where
  "quote_unit c =
     (if c = 0x08 then [0x5C, 0x62]
      else if c = 0x09 then [0x5C, 0x74]
      else if c = 0x0A then [0x5C, 0x6E]
      else if c = 0x0C then [0x5C, 0x66]
      else if c = 0x0D then [0x5C, 0x72]
      else if c = 0x22 then [0x5C, 0x22]
      else if c = 0x5C then [0x5C, 0x5C]
      else if c < 0x20 \<or> leading_surrogate c \<or> trailing_surrogate c then unicode_escape c
      else [c])"

fun quote_chars :: "jsstring \<Rightarrow> jsstring" where
  "quote_chars [] = []"
| "quote_chars [c] = quote_unit c"
| "quote_chars (c # d # cs) =
     (if leading_surrogate c \<and> trailing_surrogate d then c # d # quote_chars cs
      else quote_unit c @ quote_chars (d # cs))"

definition quote :: "jsstring \<Rightarrow> jsstring" where
  "quote s = 0x22 # quote_chars s @ [0x22]"

fun decimal :: "nat \<Rightarrow> jsstring" where
  "decimal n = (if n < 10 then [of_nat (48 + n)] else decimal (n div 10) @ [of_nat (48 + n mod 10)])"

declare decimal.simps [simp del]

fun JSON_stringify :: "json \<Rightarrow> jsstring" where
  "JSON_stringify JNull = str ''null''"
| "JSON_stringify (JBool b) = (if b then str ''true'' else str ''false'')"
| "JSON_stringify (JNumber n) = decimal n"
| "JSON_stringify (JString s) = quote s"
| "JSON_stringify (JArray xs) = 0x5B # join 0x2C (map JSON_stringify xs) @ [0x5D]"
| "JSON_stringify (JObject kvs) =
     0x7B # join 0x2C (map (\<lambda>kv. quote (fst kv) @ 0x3A # JSON_stringify (snd kv)) kvs) @ [0x7D]"

subsection \<open>JSON.parse\<close>

definition json_ws :: "code_unit \<Rightarrow> bool" where
  "json_ws c \<longleftrightarrow> c = 0x20 \<or> c = 0x09 \<or> c = 0x0A \<or> c = 0x0D"

definition skip_ws :: "jsstring \<Rightarrow> jsstring" where
  "skip_ws s = dropWhile json_ws s"

definition is_digit :: "code_unit \<Rightarrow> bool" where
  "is_digit c \<longleftrightarrow> 0x30 \<le> c \<and> c \<le> 0x39"

definition hex_value :: "code_unit \<Rightarrow> nat option" where
  "hex_value c =
     (if 0x30 \<le> c \<and> c \<le> 0x39 then Some (unat c - 48)
      else if 0x61 \<le> c \<and> c \<le> 0x66 then Some (unat c - 87)
      else if 0x41 \<le> c \<and> c \<le> 0x46 then Some (unat c - 55)
      else None)"

definition hex4 :: "code_unit \<Rightarrow> code_unit \<Rightarrow> code_unit \<Rightarrow> code_unit \<Rightarrow> code_unit option" where
  "hex4 a b c d =
     (case (hex_value a, hex_value b, hex_value c, hex_value d) of
        (Some x, Some y, Some z, Some w) \<Rightarrow> Some (of_nat (((x * 16 + y) * 16 + z) * 16 + w))
      | _ \<Rightarrow> None)"

definition unescape :: "code_unit \<Rightarrow> code_unit option" where
  "unescape e =
     (if e = 0x22 then Some 0x22
      else if e = 0x5C then Some 0x5C
      else if e = 0x2F then Some 0x2F
      else if e = 0x62 then Some 0x08
      else if e = 0x66 then Some 0x0C
      else if e = 0x6E then Some 0x0A
      else if e = 0x72 then Some 0x0D
      else if e = 0x74 then Some 0x09
      else None)"

definition cons_result :: "code_unit \<Rightarrow> error + (jsstring \<times> jsstring) \<Rightarrow> error + (jsstring \<times> jsstring)" where
  "cons_result c r = (case r of Inl e \<Rightarrow> Inl e | Inr (s, rest) \<Rightarrow> Inr (c # s, rest))"

text \<open>
  An escape sequence, read after its backslash: the code unit it denotes and the input
  left.
\<close>

definition parse_escape :: "jsstring \<Rightarrow> (code_unit \<times> jsstring) option" where
  "parse_escape s =
     (case s of
        [] \<Rightarrow> None
      | e # es \<Rightarrow>
          if e = 0x75 then
            (if length es < 4 then None
             else map_option (\<lambda>u. (u, drop 4 es)) (hex4 (es ! 0) (es ! 1) (es ! 2) (es ! 3)))
          else map_option (\<lambda>u. (u, es)) (unescape e))"

lemma parse_escape_shorter: "parse_escape s = Some (u, rest) \<Longrightarrow> length rest < length s"
  by (auto simp: parse_escape_def split: list.splits if_splits)

text \<open>
  The characters of a string after its opening quote, up to the closing one; the result
  is the string and the input left.
\<close>

function parse_chars :: "jsstring \<Rightarrow> error + (jsstring \<times> jsstring)" where
  "parse_chars [] = Inl SyntaxError"
| "parse_chars (c # cs) =
     (if c = 0x22 then Inr ([], cs)
      else if c = 0x5C then
        (case parse_escape cs of
           None \<Rightarrow> Inl SyntaxError
         | Some (u, rest) \<Rightarrow> cons_result u (parse_chars rest))
      else if c < 0x20 then Inl SyntaxError
      else cons_result c (parse_chars cs))"
  by pat_completeness auto
termination
  by (relation "measure length") (auto dest: parse_escape_shorter)

text \<open>
  A number. Only a plain natural-number literal of at most \<open>2^53\<close> is given a value;
  a sign, a fraction, an exponent or a larger literal is \<open>Unmodelled\<close>.
\<close>

definition digits_value :: "jsstring \<Rightarrow> nat" where
  "digits_value ds = foldl (\<lambda>n d. 10 * n + (unat d - 48)) 0 ds"

definition parse_number :: "jsstring \<Rightarrow> error + (json \<times> jsstring)" where
  "parse_number s =
     (case s of
        [] \<Rightarrow> Inl SyntaxError
      | c # cs \<Rightarrow>
          if c = 0x2D then
            (case cs of [] \<Rightarrow> Inl SyntaxError
             | d # _ \<Rightarrow> if is_digit d then Inl Unmodelled else Inl SyntaxError)
          else
            (let ds = (if c = 0x30 then [c] else takeWhile is_digit s);
                 rest = drop (length ds) s;
                 n = digits_value ds
             in if rest \<noteq> [] \<and> (hd rest = 0x2E \<or> hd rest = 0x65 \<or> hd rest = 0x45) then Inl Unmodelled
                else if 9007199254740992 < n then Inl Unmodelled
                else Inr (JNumber n, rest)))"

definition parse_literal :: "jsstring \<Rightarrow> json \<Rightarrow> jsstring \<Rightarrow> error + (json \<times> jsstring)" where
  "parse_literal word v s =
     (if take (length word) s = word then Inr (v, drop (length word) s) else Inl SyntaxError)"

fun update :: "jsstring \<Rightarrow> json \<Rightarrow> (jsstring \<times> json) list \<Rightarrow> (jsstring \<times> json) list" where
  "update k v [] = [(k, v)]"
| "update k v (p # ps) = (if fst p = k then (k, v) # ps else p # update k v ps)"

lemma parse_chars_shorter: "parse_chars s = Inr (r, rest) \<Longrightarrow> length rest < length s"
proof (induction s arbitrary: r rule: parse_chars.induct)
  case 1
  then show ?case by simp
next
  case (2 c cs)
  then show ?case
    by (fastforce simp: cons_result_def dest: parse_escape_shorter
        split: if_splits option.splits sum.splits prod.splits)
qed

lemma skip_ws_length: "length (skip_ws s) \<le> length s"
  by (simp add: skip_ws_def length_dropWhile_le)

lemma skip_ws_Cons_length: "skip_ws s = c # cs \<Longrightarrow> length cs < length s"
  using skip_ws_length [of s] by simp

lemma members_measure:
  "skip_ws s = q # cs \<Longrightarrow> parse_chars cs = Inr (k, rest) \<Longrightarrow> skip_ws rest = d # rest1 \<Longrightarrow>
   length (skip_ws rest1) \<le> length s"
  using skip_ws_Cons_length [of s q cs] parse_chars_shorter [of cs k rest]
    skip_ws_Cons_length [of rest d rest1] skip_ws_length [of rest1]
  by simp

text \<open>
  The grammar of JSON by recursive descent: a value, the elements of an array after its
  opening bracket, the members of an object after its opening brace. Each returns the
  value read and the input left. The test that the input left is shorter than the input
  given always succeeds (every value takes at least one character); it makes the
  recursion well-founded by itself. A property written twice keeps its first place and
  takes its last value.
\<close>

function parse_value :: "jsstring \<Rightarrow> error + (json \<times> jsstring)"
  and parse_elements :: "json list \<Rightarrow> jsstring \<Rightarrow> error + (json \<times> jsstring)"
  and parse_members :: "(jsstring \<times> json) list \<Rightarrow> jsstring \<Rightarrow> error + (json \<times> jsstring)"
where
  "parse_value [] = Inl SyntaxError"
| "parse_value (c # cs) =
     (if c = 0x7B then
        (case skip_ws cs of
           [] \<Rightarrow> Inl SyntaxError
         | d # rest \<Rightarrow> if d = 0x7D then Inr (JObject [], rest) else parse_members [] cs)
      else if c = 0x5B then
        (case skip_ws cs of
           [] \<Rightarrow> Inl SyntaxError
         | d # rest \<Rightarrow> if d = 0x5D then Inr (JArray [], rest) else parse_elements [] cs)
      else if c = 0x22 then
        (case parse_chars cs of Inl e \<Rightarrow> Inl e | Inr (s, rest) \<Rightarrow> Inr (JString s, rest))
      else if c = 0x74 then parse_literal (str ''true'') (JBool True) (c # cs)
      else if c = 0x66 then parse_literal (str ''false'') (JBool False) (c # cs)
      else if c = 0x6E then parse_literal (str ''null'') JNull (c # cs)
      else if c = 0x2D \<or> is_digit c then parse_number (c # cs)
      else Inl SyntaxError)"
| "parse_elements acc s =
     (case parse_value (skip_ws s) of
        Inl e \<Rightarrow> Inl e
      | Inr (v, rest) \<Rightarrow>
          if length rest < length s then
            (case skip_ws rest of
               [] \<Rightarrow> Inl SyntaxError
             | d # rest' \<Rightarrow>
                 if d = 0x2C then parse_elements (acc @ [v]) rest'
                 else if d = 0x5D then Inr (JArray (acc @ [v]), rest')
                 else Inl SyntaxError)
          else Inl SyntaxError)"
| "parse_members acc s =
     (case skip_ws s of
        [] \<Rightarrow> Inl SyntaxError
      | q # cs \<Rightarrow>
          if q = 0x22 then
            (case parse_chars cs of
               Inl e \<Rightarrow> Inl e
             | Inr (k, rest) \<Rightarrow>
                 (case skip_ws rest of
                    [] \<Rightarrow> Inl SyntaxError
                  | d # rest1 \<Rightarrow>
                      if d = 0x3A then
                        (case parse_value (skip_ws rest1) of
                           Inl e \<Rightarrow> Inl e
                         | Inr (v, rest2) \<Rightarrow>
                             if length rest2 < length s then
                               (case skip_ws rest2 of
                                  [] \<Rightarrow> Inl SyntaxError
                                | d' # rest3 \<Rightarrow>
                                    if d' = 0x2C then parse_members (update k v acc) rest3
                                    else if d' = 0x7D then Inr (JObject (update k v acc), rest3)
                                    else Inl SyntaxError)
                             else Inl SyntaxError)
                      else Inl SyntaxError))
          else Inl SyntaxError)"
  by pat_completeness auto
termination
proof (relation "measure (\<lambda>x. case x of
          Inl s \<Rightarrow> 2 * length s
        | Inr (Inl (acc, s)) \<Rightarrow> 2 * length s + 1
        | Inr (Inr (acc, s)) \<Rightarrow> 2 * length s + 1)", goal_cases)
  case 1
  show ?case by simp
next
  case 2
  show ?case by simp
next
  case 3
  show ?case by simp
next
  case (4 acc s)
  show ?case using skip_ws_length [of s] by simp
next
  case 5
  then show ?case by (auto dest: skip_ws_Cons_length)
next
  case 6
  then show ?case by (auto dest: members_measure)
next
  case 7
  then show ?case by (auto dest: skip_ws_Cons_length)
qed

declare parse_elements.simps [simp del] parse_members.simps [simp del]

text \<open>\<^verbatim>\<open>JSON.parse\<close>: one value between optional whitespace, and nothing after it.\<close>

definition JSON_parse :: "jsstring \<Rightarrow> error + json" where
  "JSON_parse s =
     (case parse_value (skip_ws s) of
        Inl e \<Rightarrow> Inl e
      | Inr (v, rest) \<Rightarrow> if skip_ws rest = [] then Inr v else Inl SyntaxError)"

subsection \<open>Reading parsed values\<close>

text \<open>
  A property read \<^verbatim>\<open>v.name\<close> on a parsed value that is neither \<^verbatim>\<open>null\<close> nor
  \<^verbatim>\<open>undefined\<close>, for the names this program reads (\<^verbatim>\<open>session\<close>, \<^verbatim>\<open>iceCandidates\<close>,
  \<^verbatim>\<open>sdp\<close>, \<^verbatim>\<open>type\<close>): an own property of an object, \<^verbatim>\<open>undefined\<close> (\<open>None\<close>) on
  anything else.
\<close>

fun property :: "json \<Rightarrow> jsstring \<Rightarrow> json option" where
  "property (JObject kvs) name = map_of kvs name"
| "property _ name = None"

fun collect :: "(error + 'a) list \<Rightarrow> error + 'a list" where
  "collect [] = Inr []"
| "collect (Inl e # rs) = Inl e"
| "collect (Inr x # rs) = (case collect rs of Inl e \<Rightarrow> Inl e | Inr xs \<Rightarrow> Inr (x # xs))"

text \<open>
  The string a template literal \<^verbatim>\<open>`${v}`\<close> puts in for a parsed value: an array joins
  its elements with commas (nothing for \<^verbatim>\<open>null\<close>); an object is \<^verbatim>\<open>[object Object]\<close>,
  and a TypeError when it has an own property \<^verbatim>\<open>toString\<close>, which is then not callable.
\<close>

fun toString :: "json \<Rightarrow> error + jsstring" where
  "toString JNull = Inr (str ''null'')"
| "toString (JBool b) = Inr (if b then str ''true'' else str ''false'')"
| "toString (JNumber n) = Inr (decimal n)"
| "toString (JString s) = Inr s"
| "toString (JArray xs) =
     (case collect (map (\<lambda>x. if x = JNull then Inr [] else toString x) xs) of
        Inl e \<Rightarrow> Inl e
      | Inr ss \<Rightarrow> Inr (join 0x2C ss))"
| "toString (JObject kvs) =
     (if str ''toString'' \<in> set (map fst kvs) then Inl TypeError else Inr (str ''[object Object]''))"

definition template :: "json option \<Rightarrow> error + jsstring" where
  "template v = (case v of None \<Rightarrow> Inr (str ''undefined'') | Some x \<Rightarrow> toString x)"

section \<open>The data of the controller\<close>

text \<open>
  \<^verbatim>\<open>RTCIceGatheringState\<close>, \<^verbatim>\<open>RTCSdpType\<close>, \<^verbatim>\<open>RTCSessionDescriptionInit\<close> (what
  \<^verbatim>\<open>createOffer\<close> and \<^verbatim>\<open>createAnswer\<close> resolve with) and \<^verbatim>\<open>RTCIceCandidate\<close>, of which
  \<^verbatim>\<open>toJSON\<close> prints the four attributes kept here.
\<close>

datatype gathering_state = New | Gathering | Complete

datatype sdp_type = Offer | Answer | Pranswer | Rollback

record session_description =
  sdpType :: sdp_type
  sdp :: "jsstring option"

record ice_candidate =
  candidate :: jsstring
  sdpMid :: "jsstring option"
  sdpMLineIndex :: "16 word option"
  usernameFragment :: "jsstring option"

fun sdp_type_name :: "sdp_type \<Rightarrow> jsstring" where
  "sdp_type_name Offer = str ''offer''"
| "sdp_type_name Answer = str ''answer''"
| "sdp_type_name Pranswer = str ''pranswer''"
| "sdp_type_name Rollback = str ''rollback''"

text \<open>
  The values \<^verbatim>\<open>JSON.stringify\<close> sees in \<^verbatim>\<open>{ session, iceCandidates: this.iceCandidates }\<close>:
  a property that is \<^verbatim>\<open>undefined\<close> is left out, one that is \<^verbatim>\<open>null\<close> is printed.
\<close>

definition session_json :: "session_description \<Rightarrow> json" where
  "session_json d =
     JObject ((str ''type'', JString (sdp_type_name (sdpType d)))
              # (case sdp d of None \<Rightarrow> [] | Some s \<Rightarrow> [(str ''sdp'', JString s)]))"

definition nullable :: "('a \<Rightarrow> json) \<Rightarrow> 'a option \<Rightarrow> json" where
  "nullable f x = (case x of None \<Rightarrow> JNull | Some y \<Rightarrow> f y)"

definition candidate_json :: "ice_candidate \<Rightarrow> json" where
  "candidate_json c =
     JObject [(str ''candidate'', JString (candidate c)),
              (str ''sdpMid'', nullable JString (sdpMid c)),
              (str ''sdpMLineIndex'', nullable (\<lambda>n. JNumber (unat n)) (sdpMLineIndex c)),
              (str ''usernameFragment'', nullable JString (usernameFragment c))]"

definition payload_json :: "session_description \<Rightarrow> ice_candidate list \<Rightarrow> json" where
  "payload_json session cands =
     JObject [(str ''session'', session_json session),
              (str ''iceCandidates'', JArray (map candidate_json cands))]"

text \<open>
  The peer connection: the gathering state the program reads, the descriptions and
  remote candidates the engine has accepted, and the calls made on it, in order.
\<close>

datatype pc_call =
    CreateOffer bool
  | CreateAnswer bool
  | SetLocalDescription session_description
  | SetRemoteDescription json
  | AddIceCandidate json

record peer_connection =
  iceGatheringState :: gathering_state
  localDescription :: "session_description option"
  remoteDescription :: "json option"
  remoteCandidates :: "json list"
  calls :: "pc_call list"

type_synonym channel = nat

text \<open>
  The controller with the two elements and the channels it is wired to: the fields of
  the class, \<open>messenger\<close> and \<open>input\<close> for the \<^verbatim>\<open>value\<close> of the two elements,
  \<open>listeners\<close> for the channels on which \<^verbatim>\<open>handleMessage\<close> listens for \<^verbatim>\<open>message\<close>,
  \<open>sent\<close> for the strings handed to \<^verbatim>\<open>send\<close>, with the channel. \<^verbatim>\<open>console.log\<close> is
  left out.
\<close>

record controller =
  peerConnection :: peer_connection
  messenger :: jsstring
  input :: jsstring
  dataChannel :: "channel option"
  iceCandidates :: "ice_candidate list"
  listeners :: "channel list"
  sent :: "(channel \<times> jsstring) list"

text \<open>
  The engine behind the peer connection and the channels is not part of the program.
  It is a parameter: what \<^verbatim>\<open>createOffer\<close> and \<^verbatim>\<open>createAnswer\<close> resolve with, and which
  calls it rejects or throws on, given the state of the connection.
\<close>

record engine =
  createOffer_result :: "peer_connection \<Rightarrow> error + session_description"
  createAnswer_result :: "peer_connection \<Rightarrow> error + session_description"
  setLocalDescription_error :: "peer_connection \<Rightarrow> session_description \<Rightarrow> error option"
  newRTCSessionDescription_error :: "json \<Rightarrow> error option"
  setRemoteDescription_error :: "peer_connection \<Rightarrow> json \<Rightarrow> error option"
  addIceCandidate_error :: "peer_connection \<Rightarrow> json \<Rightarrow> error option"
  send_error :: "channel \<Rightarrow> jsstring \<Rightarrow> error option"

text \<open>
  What reaches the program from outside while it runs: the events it listens to, and
  the settling of the promise it awaits.
  \<^item> \<open>IceCandidate c\<close>: \<^verbatim>\<open>icecandidate\<close> with \<^verbatim>\<open>event.candidate\<close>, \<open>None\<close> for \<^verbatim>\<open>null\<close>;
  \<^item> \<open>IceGatheringStateChange g\<close>: the gathering state becomes \<open>g\<close> and
    \<^verbatim>\<open>icegatheringstatechange\<close> fires;
  \<^item> \<open>DataChannel ch\<close>: \<^verbatim>\<open>datachannel\<close> with \<^verbatim>\<open>event.channel\<close>;
  \<^item> \<open>Message ch data\<close>: \<^verbatim>\<open>message\<close> on the channel \<open>ch\<close> with \<^verbatim>\<open>event.data\<close>.
\<close>

datatype event =
    IceCandidate "ice_candidate option"
  | IceGatheringStateChange gathering_state
  | DataChannel channel
  | Message channel jsstring

datatype occurrence = Fire event | Settle

text \<open>
  The state of the promise an \<^verbatim>\<open>async\<close> function returned, once the occurrences given
  are used up: fulfilled, rejected, or still waiting.
\<close>

datatype 'a promise = Fulfilled 'a | Rejected error | Unsettled

type_synonym 'a async = "'a promise \<times> occurrence list \<times> controller"

definition andThen :: "'a async \<Rightarrow> ('a \<Rightarrow> occurrence list \<Rightarrow> controller \<Rightarrow> 'b async) \<Rightarrow> 'b async" where
  "andThen r k =
     (case r of
        (Fulfilled x, sched, w) \<Rightarrow> k x sched w
      | (Rejected e, sched, w) \<Rightarrow> (Rejected e, sched, w)
      | (Unsettled, sched, w) \<Rightarrow> (Unsettled, sched, w))"

section \<open>The controller\<close>

subsection \<open>Construction and the event handlers\<close>

text \<open>
  The constructor: a connection that has gathered nothing, the channel \<open>ch\<close> that
  \<^verbatim>\<open>createDataChannel('messages')\<close> returns, with \<^verbatim>\<open>handleMessage\<close> listening on it, an empty
  candidate list, an emptied textarea. It throws when one of the two elements is not in
  the document; \<open>typed\<close> is what the input element holds.
\<close>

definition new_connection :: peer_connection where
  "new_connection =
     \<lparr>iceGatheringState = New, localDescription = None, remoteDescription = None,
      remoteCandidates = [], calls = []\<rparr>"


definition showMessage :: "jsstring \<Rightarrow> controller \<Rightarrow> controller" where
  "showMessage message w = w\<lparr>messenger := normalize_newlines (messenger w @ 0x0A # message)\<rparr>"

definition handleMessage :: "jsstring \<Rightarrow> controller \<Rightarrow> controller" where
  "handleMessage data w = showMessage data w"

definition handleIceCandidate :: "ice_candidate option \<Rightarrow> controller \<Rightarrow> controller" where
  "handleIceCandidate c w =
     (case c of
        Some cand \<Rightarrow> w\<lparr>iceCandidates := iceCandidates w @ [cand]\<rparr>
      | None \<Rightarrow> w)"

text \<open>
  \<^verbatim>\<open>addEventListener\<close> does not add a listener a second time, and nothing in the program
  removes one.
\<close>

definition handleDataChannel :: "channel \<Rightarrow> controller \<Rightarrow> controller" where
  "handleDataChannel ch w =
     w\<lparr>dataChannel := Some ch,
       listeners := (if ch \<in> set (listeners w) then listeners w else listeners w @ [ch])\<rparr>"

text \<open>An event reaches the handlers registered for it.\<close>

fun dispatch :: "event \<Rightarrow> controller \<Rightarrow> controller" where
  "dispatch (IceCandidate c) w = handleIceCandidate c w"
| "dispatch (IceGatheringStateChange g) w =
     w\<lparr>peerConnection := (peerConnection w)\<lparr>iceGatheringState := g\<rparr>\<rparr>"
| "dispatch (DataChannel ch) w = handleDataChannel ch w"
| "dispatch (Message ch data) w = (if ch \<in> set (listeners w) then handleMessage data w else w)"

subsection \<open>Waiting\<close>

text \<open>
  \<^verbatim>\<open>await\<close> on a promise of the engine: the events that fire before the promise settles
  are handled first. When the occurrences end before it settles, the function is left
  waiting.
\<close>

fun await :: "occurrence list \<Rightarrow> controller \<Rightarrow> unit async" where
  "await [] w = (Unsettled, [], w)"
| "await (Settle # sched) w = (Fulfilled (), sched, w)"
| "await (Fire e # sched) w = await sched (dispatch e w)"

text \<open>
  \<^verbatim>\<open>await waitFor('icegatheringstatechange', this.peerConnection)\<close>: the promise resolves at
  the next event of that name; other events are handled on the way, and the settling
  of a promise nobody awaits passes by.
\<close>

fun icegatheringstatechange :: "event \<Rightarrow> bool" where
  "icegatheringstatechange (IceGatheringStateChange g) = True"
| "icegatheringstatechange _ = False"

fun waitFor_icegatheringstatechange :: "occurrence list \<Rightarrow> controller \<Rightarrow> unit async" where
  "waitFor_icegatheringstatechange [] w = (Unsettled, [], w)"
| "waitFor_icegatheringstatechange (Settle # sched) w = waitFor_icegatheringstatechange sched w"
| "waitFor_icegatheringstatechange (Fire e # sched) w =
     (if icegatheringstatechange e then (Fulfilled (), sched, dispatch e w)
      else waitFor_icegatheringstatechange sched (dispatch e w))"

lemma waitFor_shorter:
  "waitFor_icegatheringstatechange sched w = (Fulfilled u, sched', w') \<Longrightarrow> length sched' < length sched"
  by (induction sched w rule: waitFor_icegatheringstatechange.induct) (auto split: if_splits)

function waitForIceCandidates :: "occurrence list \<Rightarrow> controller \<Rightarrow> unit async" where
  "waitForIceCandidates sched w =
     (if iceGatheringState (peerConnection w) \<noteq> Complete then
        (case waitFor_icegatheringstatechange sched w of
           (Fulfilled u, sched', w') \<Rightarrow> waitForIceCandidates sched' w'
         | (Rejected e, sched', w') \<Rightarrow> (Rejected e, sched', w')
         | (Unsettled, sched', w') \<Rightarrow> (Unsettled, sched', w'))
      else (Fulfilled (), sched, w))"
  by pat_completeness auto
termination
  by (relation "measure (\<lambda>(sched, w). length sched)") (auto dest: waitFor_shorter [OF sym])

declare waitForIceCandidates.simps [simp del]

subsection \<open>Payloads\<close>

definition createSessionPayload :: "session_description \<Rightarrow> occurrence list \<Rightarrow> controller \<Rightarrow> jsstring async" where
  "createSessionPayload session sched w =
     andThen (waitForIceCandidates sched w) (\<lambda>_ sched' w'.
       case btoa (JSON_stringify (payload_json session (iceCandidates w'))) of
         Inl e \<Rightarrow> (Rejected e, sched', w')
       | Inr payload \<Rightarrow> (Fulfilled payload, sched', w'))"

definition parseSessionPayload :: "jsstring \<Rightarrow> error + json" where
  "parseSessionPayload payload =
     (case atob payload of Inl e \<Rightarrow> Inl e | Inr text \<Rightarrow> JSON_parse text)"

subsection \<open>Calls on the peer connection\<close>

text \<open>
  Each call is recorded, the engine decides on it in the state the connection is in, and
  what it accepts takes effect. The caller then awaits the promise.
\<close>

definition called :: "pc_call \<Rightarrow> peer_connection \<Rightarrow> peer_connection" where
  "called c pc = pc\<lparr>calls := calls pc @ [c]\<rparr>"

definition settle :: "error + 'a \<Rightarrow> occurrence list \<Rightarrow> controller \<Rightarrow> 'a async" where
  "settle r sched w =
     andThen (await sched w) (\<lambda>_ sched' w'.
       case r of Inl e \<Rightarrow> (Rejected e, sched', w') | Inr x \<Rightarrow> (Fulfilled x, sched', w'))"

definition createOffer :: "engine \<Rightarrow> bool \<Rightarrow> occurrence list \<Rightarrow> controller \<Rightarrow> session_description async" where
  "createOffer E iceRestart sched w =
     settle (createOffer_result E (peerConnection w)) sched
       (w\<lparr>peerConnection := called (CreateOffer iceRestart) (peerConnection w)\<rparr>)"

definition createAnswer :: "engine \<Rightarrow> bool \<Rightarrow> occurrence list \<Rightarrow> controller \<Rightarrow> session_description async" where
  "createAnswer E iceRestart sched w =
     settle (createAnswer_result E (peerConnection w)) sched
       (w\<lparr>peerConnection := called (CreateAnswer iceRestart) (peerConnection w)\<rparr>)"

definition setLocalDescription :: "engine \<Rightarrow> session_description \<Rightarrow> occurrence list \<Rightarrow> controller \<Rightarrow> unit async" where
  "setLocalDescription E d sched w =
     (let pc = peerConnection w in
      case setLocalDescription_error E pc d of
        Some e \<Rightarrow> settle (Inl e) sched (w\<lparr>peerConnection := called (SetLocalDescription d) pc\<rparr>)
      | None \<Rightarrow>
          settle (Inr ()) sched
            (w\<lparr>peerConnection := called (SetLocalDescription d) (pc\<lparr>localDescription := Some d\<rparr>)\<rparr>))"

definition setRemoteDescription :: "engine \<Rightarrow> json \<Rightarrow> occurrence list \<Rightarrow> controller \<Rightarrow> unit async" where
  "setRemoteDescription E d sched w =
     (let pc = peerConnection w in
      case setRemoteDescription_error E pc d of
        Some e \<Rightarrow> settle (Inl e) sched (w\<lparr>peerConnection := called (SetRemoteDescription d) pc\<rparr>)
      | None \<Rightarrow>
          settle (Inr ()) sched
            (w\<lparr>peerConnection := called (SetRemoteDescription d) (pc\<lparr>remoteDescription := Some d\<rparr>)\<rparr>))"

text \<open>
  \<^verbatim>\<open>iceCandidates.map(...)\<close> calls \<^verbatim>\<open>addIceCandidate\<close> on every candidate before anything
  is awaited. The engine works the calls off in their order; a candidate it rejects does
  not stop the ones after it. The first rejection is kept: it is what \<^verbatim>\<open>Promise.all\<close>
  rejects with.
\<close>

fun addIceCandidate_all :: "engine \<Rightarrow> json list \<Rightarrow> peer_connection \<Rightarrow> error option \<times> peer_connection" where
  "addIceCandidate_all E [] pc = (None, pc)"
| "addIceCandidate_all E (c # cs) pc =
     (case addIceCandidate_error E pc c of
        Some e \<Rightarrow> (Some e, snd (addIceCandidate_all E cs (called (AddIceCandidate c) pc)))
      | None \<Rightarrow>
          addIceCandidate_all E cs
            (called (AddIceCandidate c) (pc\<lparr>remoteCandidates := remoteCandidates pc @ [c]\<rparr>)))"

text \<open>
  \<^verbatim>\<open>addIceCandidates\<close>. What was parsed is used as an array without a check: \<^verbatim>\<open>map\<close> on
  anything else is a TypeError. \<^verbatim>\<open>Promise.all\<close> of no promise is fulfilled at once.
\<close>

definition addIceCandidates :: "engine \<Rightarrow> json option \<Rightarrow> occurrence list \<Rightarrow> controller \<Rightarrow> unit async" where
  "addIceCandidates E cands sched w =
     (case cands of
        Some (JArray cs) \<Rightarrow>
          (case addIceCandidate_all E cs (peerConnection w) of
             (r, pc) \<Rightarrow>
               if cs = [] then (Fulfilled (), sched, w)
               else settle (case r of Some e \<Rightarrow> Inl e | None \<Rightarrow> Inr ()) sched
                      (w\<lparr>peerConnection := pc\<rparr>))
      | _ \<Rightarrow> (Rejected TypeError, sched, w))"

subsection \<open>Hosting and joining\<close>

definition hostSession :: "engine \<Rightarrow> occurrence list \<Rightarrow> controller \<Rightarrow> unit async" where
  "hostSession E sched w =
     andThen (createOffer E True sched w) (\<lambda>offer sched1 w1.
     andThen (setLocalDescription E offer sched1 w1) (\<lambda>_ sched2 w2.
     andThen (createSessionPayload offer sched2 w2) (\<lambda>payload sched3 w3.
       (Fulfilled (), sched3, showMessage (str ''Offer: '' @ payload) w3))))"

text \<open>
  \<^verbatim>\<open>joinSession\<close>. The parsed value is taken apart without a check: destructuring
  \<^verbatim>\<open>null\<close>, and reading \<^verbatim>\<open>sdp\<close> of a \<^verbatim>\<open>session\<close> that is \<^verbatim>\<open>undefined\<close> or \<^verbatim>\<open>null\<close>, are
  TypeErrors. An exception inside the \<^verbatim>\<open>async\<close> function rejects its promise.
\<close>

definition joinSession :: "engine \<Rightarrow> jsstring \<Rightarrow> occurrence list \<Rightarrow> controller \<Rightarrow> unit async" where
  "joinSession E response sched w =
     (case parseSessionPayload response of
        Inl e \<Rightarrow> (Rejected e, sched, w)
      | Inr parsed \<Rightarrow>
          if parsed = JNull then (Rejected TypeError, sched, w)
          else
            (case property parsed (str ''session'') of
               None \<Rightarrow> (Rejected TypeError, sched, w)
             | Some session \<Rightarrow>
                 if session = JNull then (Rejected TypeError, sched, w)
                 else
                   (case template (property session (str ''sdp'')) of
                      Inl e \<Rightarrow> (Rejected e, sched, w)
                    | Inr shown \<Rightarrow>
                        (let w0 = showMessage (str ''joining: '' @ shown) w in
                         case newRTCSessionDescription_error E session of
                           Some e \<Rightarrow> (Rejected e, sched, w0)
                         | None \<Rightarrow>
                             andThen (setRemoteDescription E session sched w0) (\<lambda>_ sched1 w1.
                             andThen (addIceCandidates E (property parsed (str ''iceCandidates'')) sched1 w1)
                               (\<lambda>_ sched2 w2.
                               if property session (str ''type'') = Some (JString (str ''answer'')) then
                                 (Fulfilled (), sched2, showMessage (str ''Finished session setup!'') w2)
                               else
                                 andThen (createAnswer E True sched2 w2) (\<lambda>answer sched3 w3.
                                 andThen (setLocalDescription E answer sched3 w3) (\<lambda>_ sched4 w4.
                                 andThen (createSessionPayload answer sched4 w4) (\<lambda>payload sched5 w5.
                                   (Fulfilled (), sched5,
                                    showMessage (str ''Answer: '' @ payload) w5))))))))))"

subsection \<open>Input\<close>

text \<open>
  What a handler returns: \<^verbatim>\<open>undefined\<close>, or the promise of the session function it
  started, here in the state the occurrences given leave it in. \<open>Inl\<close> is an exception
  thrown by the handler itself.
\<close>

datatype returned = Undefined | Promise "unit promise"

type_synonym handled = "(error + returned) \<times> occurrence list \<times> controller"

definition sendMessage :: "engine \<Rightarrow> jsstring \<Rightarrow> controller \<Rightarrow> (error + returned) \<times> controller" where
  "sendMessage E v w =
     (case dataChannel w of
        Some ch \<Rightarrow>
          (case send_error E ch v of Some e \<Rightarrow> Inl e | None \<Rightarrow> Inr Undefined,
           w\<lparr>sent := sent w @ [(ch, v)]\<rparr>)
      | None \<Rightarrow> (Inr Undefined, w))"

definition started :: "unit async \<Rightarrow> handled" where
  "started r = (case r of (p, sched, w) \<Rightarrow> (Inr (Promise p), sched, w))"

text \<open>
  \<^verbatim>\<open>handleCommand\<close>. \<^verbatim>\<open>split\<close> returns at least one piece, so \<^verbatim>\<open>shift\<close> finds a command;
  on an empty array it would return \<^verbatim>\<open>undefined\<close>.
\<close>

definition handleCommand :: "engine \<Rightarrow> jsstring \<Rightarrow> occurrence list \<Rightarrow> controller \<Rightarrow> handled" where
  "handleCommand E v sched w =
     (case split 0x20 (substring 1 v) of
        [] \<Rightarrow> (Inr Undefined, sched, showMessage (str ''Invalid Command: undefined'') w)
      | command # args \<Rightarrow>
          if command = str ''host'' then started (hostSession E sched w)
          else if command = str ''join'' then started (joinSession E (join 0x20 args) sched w)
          else (Inr Undefined, sched, showMessage (str ''Invalid Command: '' @ command) w))"

definition handleInput :: "engine \<Rightarrow> jsstring \<Rightarrow> occurrence list \<Rightarrow> controller \<Rightarrow> handled" where
  "handleInput E v sched w =
     (if v = [] then (Inr Undefined, sched, w)
      else if startsWith v (str ''/'') then handleCommand E v sched w
      else (case sendMessage E v w of (r, w') \<Rightarrow> (r, sched, w')))"


subsection \<open>A session\<close>


fun leftover :: "occurrence list \<Rightarrow> controller \<Rightarrow> controller" where
  "leftover [] w = w"
| "leftover (Settle # sched) w = leftover sched w"
| "leftover (Fire e # sched) w = leftover sched (dispatch e w)"



section \<open>An engine and a controller to run the program on\<close>

text \<open>
  An engine that accepts every call, answers \<^verbatim>\<open>createOffer\<close> and \<^verbatim>\<open>createAnswer\<close> with a
  one-line description, and a channel that takes every string; and the controller the
  constructor builds, with an empty input field and channel 0.
\<close>

definition accepting :: engine where
  "accepting =
     \<lparr>createOffer_result = (\<lambda>pc. Inr \<lparr>sdpType = Offer, sdp = Some (str ''v=0'')\<rparr>),
      createAnswer_result = (\<lambda>pc. Inr \<lparr>sdpType = Answer, sdp = Some (str ''v=0'')\<rparr>),
      setLocalDescription_error = (\<lambda>pc d. None),
      newRTCSessionDescription_error = (\<lambda>d. None),
      setRemoteDescription_error = (\<lambda>pc d. None),
      addIceCandidate_error = (\<lambda>pc c. None),
      send_error = (\<lambda>ch v. None)\<rparr>"

definition fresh :: controller where
  "fresh =
     \<lparr>peerConnection = new_connection, messenger = [], input = [],
      dataChannel = Some 0, iceCandidates = [], listeners = [0], sent = []\<rparr>"


section \<open>Splitting and joining\<close>

lemma split_acc_not_Nil: "split_acc sep cur s \<noteq> []"
  by (induction s arbitrary: cur) auto

lemma join_Cons: "ys \<noteq> [] \<Longrightarrow> join sep (x # ys) = x @ sep # join sep ys"
  by (cases ys) auto

lemma join_split_acc: "join sep (split_acc sep cur s) = cur @ s"
  by (induction s arbitrary: cur) (auto simp: join_Cons split_acc_not_Nil)

lemma join_split: "join sep (split sep s) = s"
  by (simp add: split_def join_split_acc)

lemma split_acc_no_sep: "sep \<notin> set s \<Longrightarrow> split_acc sep cur s = [cur @ s]"
  by (induction s arbitrary: cur) auto

section \<open>Command routing\<close>

lemma handleInput_host: "handleInput E (str ''/host'') sched w = started (hostSession E sched w)"
  by (simp add: handleInput_def handleCommand_def startsWith_def substring_def split_def str_def)

lemma handleInput_join:
  "handleInput E (str ''/join '' @ payload) sched w = started (joinSession E payload sched w)"
  by (simp add: handleInput_def handleCommand_def startsWith_def substring_def split_def str_def
      join_split_acc)

lemma handleInput_join_alone:
  "handleInput E (str ''/join'') sched w = started (joinSession E [] sched w)"
  by (simp add: handleInput_def handleCommand_def startsWith_def substring_def split_def str_def)

lemma handleInput_unknown:
  assumes "0x20 \<notin> set command" and "command \<noteq> str ''host''" and "command \<noteq> str ''join''"
  shows "handleInput E (0x2F # command) sched w
           = (Inr Undefined, sched, showMessage (str ''Invalid Command: '' @ command) w)"
  using assms
  by (simp add: handleInput_def handleCommand_def startsWith_def substring_def split_def
      split_acc_no_sep str_def)

lemma handleInput_message:
  assumes "v \<noteq> []" and "\<not> startsWith v (str ''/'')" and "dataChannel w = Some ch"
  shows "handleInput E v sched w
           = (case send_error E ch v of Some e \<Rightarrow> Inl e | None \<Rightarrow> Inr Undefined,
              sched, w\<lparr>sent := sent w @ [(ch, v)]\<rparr>)"
  using assms by (simp add: handleInput_def sendMessage_def)

lemma parseSessionPayload_empty: "parseSessionPayload [] = Inl SyntaxError"
  by (simp add: parseSessionPayload_def atob_def strip_padding_def JSON_parse_def skip_ws_def)

lemma joinSession_empty: "joinSession E [] sched w = (Rejected SyntaxError, sched, w)"
  by (simp add: joinSession_def parseSessionPayload_empty)

text \<open>
  C10. Submitting the empty string does nothing: \<^verbatim>\<open>handleInput\<close> returns \<^verbatim>\<open>undefined\<close>,
  nothing is sent, nothing is displayed, no call is made and no occurrence is used; the
  controller is the one it was.
\<close>

theorem handleInput_empty: "handleInput E [] sched w = (Inr Undefined, sched, w)"
  by (simp add: handleInput_def)

text \<open>
  C4, amended. \<^verbatim>\<open>/host\<close> starts the hosting flow, which takes no argument. \<^verbatim>\<open>/join\<close>
  followed by a space starts the join flow on the rest of the line, whatever it holds,
  spaces included. A line that is not empty and does not start with \<^verbatim>\<open>/\<close> is handed
  unchanged to \<^verbatim>\<open>send\<close> of the active channel. A command without a space that is neither
  \<^verbatim>\<open>host\<close> nor \<^verbatim>\<open>join\<close> displays \<^verbatim>\<open>Invalid Command:\<close> and the command. (The empty line
  is the one input without the marker that is not sent.)
\<close>

theorem command_routing:
  "handleInput E (str ''/host'') sched w = started (hostSession E sched w)
   \<and> handleInput E (str ''/join '' @ payload) sched w = started (joinSession E payload sched w)
   \<and> (v \<noteq> [] \<and> \<not> startsWith v (str ''/'') \<and> dataChannel w = Some ch \<longrightarrow>
        handleInput E v sched w
          = (case send_error E ch v of Some e \<Rightarrow> Inl e | None \<Rightarrow> Inr Undefined,
             sched, w\<lparr>sent := sent w @ [(ch, v)]\<rparr>))
   \<and> (0x20 \<notin> set command \<and> command \<noteq> str ''host'' \<and> command \<noteq> str ''join'' \<longrightarrow>
        handleInput E (0x2F # command) sched w
          = (Inr Undefined, sched, showMessage (str ''Invalid Command: '' @ command) w))"
  using handleInput_host handleInput_join handleInput_message handleInput_unknown by simp

text \<open>
  The witness: \<^verbatim>\<open>/host\<close>, \<^verbatim>\<open>/join ABC123\<close>, \<^verbatim>\<open>hello\<close> and \<^verbatim>\<open>/bogus\<close> on the fresh
  controller.
\<close>

theorem command_routing_witness:
  "handleInput accepting (str ''/host'') [] fresh = started (hostSession accepting [] fresh)
   \<and> handleInput accepting (str ''/join ABC123'') [] fresh
       = started (joinSession accepting (str ''ABC123'') [] fresh)
   \<and> str ''hello'' \<noteq> [] \<and> \<not> startsWith (str ''hello'') (str ''/'') \<and> dataChannel fresh = Some 0
   \<and> handleInput accepting (str ''hello'') [] fresh
       = (Inr Undefined, [], fresh\<lparr>sent := [(0, str ''hello'')]\<rparr>)
   \<and> 0x20 \<notin> set (str ''bogus'') \<and> str ''bogus'' \<noteq> str ''host'' \<and> str ''bogus'' \<noteq> str ''join''
   \<and> handleInput accepting (str ''/bogus'') [] fresh
       = (Inr Undefined, [], fresh\<lparr>messenger := 0x0A # str ''Invalid Command: bogus''\<rparr>)"
  using command_routing [where E = accepting and sched = "[]" and w = fresh
      and payload = "str ''ABC123''" and v = "str ''hello''" and ch = 0
      and command = "str ''bogus''"]
  by (simp add: str_def startsWith_def fresh_def accepting_def showMessage_def)

text \<open>
  Against C4 as stated: the empty line does not start with the marker, a channel is
  active, and nothing is sent.
\<close>

theorem empty_input_is_not_sent:
  "\<not> startsWith [] (str ''/'') \<and> dataChannel fresh = Some 0
   \<and> handleInput accepting [] [] fresh = (Inr Undefined, [], fresh) \<and> sent fresh = []"
  by (simp add: handleInput_def startsWith_def str_def fresh_def)

section \<open>Joining without a payload, and with one that does not decode\<close>

text \<open>
  C6, amended. \<^verbatim>\<open>/join\<close> alone does call \<^verbatim>\<open>joinSession\<close>, with the empty string. The
  empty string decodes to the empty text, which \<^verbatim>\<open>JSON.parse\<close> refuses: the promise is
  rejected with a SyntaxError, and the controller is left as it was.
\<close>

theorem join_without_payload:
  "handleInput E (str ''/join'') sched w = started (joinSession E [] sched w)
   \<and> joinSession E [] sched w = (Rejected SyntaxError, sched, w)"
  by (simp add: handleInput_join_alone joinSession_empty)

text \<open>
  Against C6 as stated: on the fresh controller, \<^verbatim>\<open>/join\<close> is the call of \<^verbatim>\<open>joinSession\<close>
  on the empty string.
\<close>

theorem join_is_called_without_payload:
  "handleInput accepting (str ''/join'') [] fresh = started (joinSession accepting [] [] fresh)
   \<and> joinSession accepting [] [] fresh = (Rejected SyntaxError, [], fresh)"
  by (simp add: handleInput_join_alone joinSession_empty)

section \<open>Channel handover\<close>

text \<open>
  C8, amended. When the remote peer opens a channel \<open>B\<close>, it becomes the active
  channel, \<^verbatim>\<open>handleMessage\<close> listens on it as well, what is sent afterwards goes to \<open>B\<close>
  and what arrives on \<open>B\<close> is displayed. The listener on a channel \<open>A\<close> that had one
  stays: what arrives on \<open>A\<close> is still displayed.
\<close>

theorem channel_handover:
  "dataChannel (handleDataChannel B w) = Some B
   \<and> set (listeners (handleDataChannel B w)) = insert B (set (listeners w))
   \<and> sendMessage E v (handleDataChannel B w)
       = (case send_error E B v of Some e \<Rightarrow> Inl e | None \<Rightarrow> Inr Undefined,
          (handleDataChannel B w)\<lparr>sent := sent w @ [(B, v)]\<rparr>)
   \<and> dispatch (Message B data) (handleDataChannel B w) = showMessage data (handleDataChannel B w)
   \<and> (A \<in> set (listeners w) \<longrightarrow>
        dispatch (Message A data) (handleDataChannel B w) = showMessage data (handleDataChannel B w))"
  by (auto simp: handleDataChannel_def sendMessage_def handleMessage_def)

text \<open>The witness: channel 1 opens while channel 0, of the constructor, is active.\<close>

theorem channel_handover_witness:
  "dataChannel (handleDataChannel 1 fresh) = Some 1
   \<and> set (listeners (handleDataChannel 1 fresh)) = {0, 1}
   \<and> sent (snd (sendMessage accepting (str ''hi'') (handleDataChannel 1 fresh))) = [(1, str ''hi'')]
   \<and> 0 \<in> set (listeners fresh)
   \<and> messenger (dispatch (Message 0 (str ''old'')) (handleDataChannel 1 fresh)) = 0x0A # str ''old''"
  using channel_handover [where B = 1 and w = fresh and E = accepting and v = "str ''hi''"
      and A = 0 and data = "str ''old''"]
  by (auto simp: fresh_def accepting_def showMessage_def handleDataChannel_def str_def)

text \<open>
  Against C8 as stated: after the handover from channel 0 to channel 1, a message on
  channel 0 is displayed.
\<close>

theorem old_channel_still_heard:
  "dataChannel fresh = Some 0
   \<and> dataChannel (handleDataChannel 1 fresh) = Some 1
   \<and> messenger (handleDataChannel 1 fresh) = []
   \<and> messenger (dispatch (Message 0 (str ''old'')) (handleDataChannel 1 fresh)) = 0x0A # str ''old''"
  by (simp add: fresh_def handleDataChannel_def handleMessage_def showMessage_def str_def)

section \<open>The candidate buffer\<close>
































text \<open>Examples: an offer, a candidate, and a gathering that finds it.\<close>

definition example_offer :: session_description where
  "example_offer = \<lparr>sdpType = Offer, sdp = Some (str ''v=0'')\<rparr>"

definition host_candidate :: ice_candidate where
  "host_candidate =
     \<lparr>candidate = str ''candidate:1 1 udp 2122260223 192.0.2.1 54321 typ host'',
      sdpMid = Some (str ''0''), sdpMLineIndex = Some 0, usernameFragment = None\<rparr>"

definition gathering :: "occurrence list" where
  "gathering =
     [Fire (IceGatheringStateChange Gathering), Fire (IceCandidate (Some host_candidate)),
      Fire (IceCandidate None), Fire (IceGatheringStateChange Complete)]"



section \<open>Decoding an encoded payload\<close>

subsection \<open>atob after btoa\<close>

text \<open>The strings \<^verbatim>\<open>btoa\<close> accepts: every code unit is at most U+00FF.\<close>

definition latin1 :: "jsstring \<Rightarrow> bool" where
  "latin1 s = (\<forall>c \<in> set s. c \<le> 0xFF)"

lemma sextet_first_bound: "(a::nat) < 256 \<Longrightarrow> a div 4 < 64" by arith
lemma sextet_second_bound: "(a::nat) mod 4 * 16 + b div 16 < 64" if "b < 256"
proof -
  have "a mod 4 \<le> 3" by arith
  moreover have "b div 16 \<le> 15" using that by arith
  ultimately show ?thesis by simp
qed
lemma sextet_third_bound: "(b::nat) mod 16 * 4 + c div 64 < 64" if "c < 256"
proof -
  have "b mod 16 \<le> 15" by arith
  moreover have "c div 64 \<le> 3" using that by arith
  ultimately show ?thesis by simp
qed
lemma sextet_third_bound_short: "(b::nat) mod 16 * 4 < 64"
proof -
  have "b mod 16 \<le> 15" by arith
  then show ?thesis by simp
qed
lemma sextet_second_bound_short: "(a::nat) mod 4 * 16 < 64"
proof -
  have "a mod 4 \<le> 3" by arith
  then show ?thesis by simp
qed

lemma b64_value_char: "i < 64 \<Longrightarrow> b64_value (b64_char i) = Some i"
  unfolding b64_value_def b64_char_def by (simp split: if_splits) arith

lemma b64_char_bound: "i < 64 \<Longrightarrow> b64_char i < 123 \<and> 43 \<le> b64_char i \<and> b64_char i \<noteq> 61"
  unfolding b64_char_def by (simp split: if_splits) arith

lemma byte_first: "(a::nat) div 4 * 4 + (a mod 4 * 16 + b div 16) div 16 = a" if "b < 256"
proof -
  have "b div 16 < 16" using that by arith
  then have "(a mod 4 * 16 + b div 16) div 16 = a mod 4" by simp
  then show ?thesis by simp
qed

lemma byte_second: "((a::nat) mod 4 * 16 + b div 16) mod 16 * 16 + (b mod 16 * 4 + c div 64) div 4 = b"
  if "b < 256" "c < 256"
proof -
  have "b div 16 < 16" using that by arith
  then have 1: "(a mod 4 * 16 + b div 16) mod 16 = b div 16" by simp
  have "c div 64 < 4" using that by arith
  then have 2: "(b mod 16 * 4 + c div 64) div 4 = b mod 16" by simp
  show ?thesis unfolding 1 2 by simp
qed

lemma byte_third: "((b::nat) mod 16 * 4 + c div 64) mod 4 * 64 + c mod 64 = c" if "c < 256"
proof -
  have "c div 64 < 4" using that by arith
  then have 1: "(b mod 16 * 4 + c div 64) mod 4 = c div 64" by simp
  show ?thesis unfolding 1 by simp
qed

lemma byte_second_short: "((a::nat) mod 4 * 16 + b div 16) mod 16 * 16 + (b mod 16 * 4) div 4 = b" if "b < 256"
proof -
  have "b div 16 < 16" using that by arith
  then have 1: "(a mod 4 * 16 + b div 16) mod 16 = b div 16" by simp
  show ?thesis unfolding 1 by simp
qed


lemma b64_bytes_sextets: "\<forall>b \<in> set bs. b < 256 \<Longrightarrow> b64_bytes (b64_sextets bs) = bs"
proof (induction bs rule: b64_sextets.induct)
  case (1 a b c bs)
  then have b: "b < 256" and c: "c < 256" and IH: "b64_bytes (b64_sextets bs) = bs"
    by simp_all
  show ?case
    by (simp only: b64_sextets.simps b64_bytes.simps append_Cons append_Nil
        byte_first [OF b] byte_second [OF b c] byte_third [OF c] IH)
next
  case (2 a b)
  then have b: "b < 256" by simp
  show ?case
    by (simp only: b64_sextets.simps b64_bytes.simps byte_first [OF b] byte_second_short [OF b])
next
  case (3 a)
  have "(a mod 4 * 16) div 16 = a mod 4" by simp
  then show ?case
    by (simp only: b64_sextets.simps b64_bytes.simps) simp
next
  case 4
  then show ?case by simp
qed

lemma sextets_lt: "\<forall>b \<in> set bs. b < 256 \<Longrightarrow> i \<in> set (b64_sextets bs) \<Longrightarrow> i < 64"
proof (induction bs rule: b64_sextets.induct)
  case (1 a b c bs)
  then show ?case using sextet_first_bound [of a] sextet_second_bound [of b a] sextet_third_bound [of c b] by auto
next
  case (2 a b)
  then show ?case using sextet_first_bound [of a] sextet_second_bound [of b a] sextet_third_bound_short [of b] by auto
next
  case (3 a)
  then show ?case using sextet_first_bound [of a] sextet_second_bound_short [of a] by auto
next
  case 4
  then show ?case by simp
qed

lemma padding_cases: "b64_padding n = 0 \<or> b64_padding n = 1 \<or> b64_padding n = 2"
proof -
  have "n mod 3 = 0 \<or> n mod 3 = 1 \<or> n mod 3 = 2" by arith
  then show ?thesis unfolding b64_padding_def by auto
qed

lemma padded_length: "(length (b64_sextets bs) + b64_padding (length bs)) mod 4 = 0"
  by (induction bs rule: b64_sextets.induct) (simp_all add: b64_padding_def)

lemma strip_padding_append:
  assumes "0x3D \<notin> set enc" and "(length enc + k) mod 4 = 0" and "k = 0 \<or> k = 1 \<or> k = 2"
  shows "strip_padding (enc @ replicate k 0x3D) = enc"
proof -
  have "k mod 4 = k" using assms(3) by auto
  then have ne: "enc \<noteq> []" if "k \<noteq> 0"
    using that assms(2) by auto
  have last_enc: "last enc \<noteq> 0x3D" if "enc \<noteq> []"
    using that assms(1) last_in_set by metis
  consider "k = 0" | "k = 1" | "k = 2" using assms(3) by blast
  then show ?thesis
  proof cases
    case 1
    show ?thesis
    proof (cases "enc = []")
      case True
      then show ?thesis using 1 by (simp add: strip_padding_def)
    next
      case False
      then show ?thesis
        using 1 last_enc by (simp add: strip_padding_def)
    qed
  next
    case 2
    then have "enc \<noteq> []" using ne by simp
    then show ?thesis
      using 2 assms(2) last_enc by (simp add: strip_padding_def butlast_append)
  next
    case 3
    then have r: "replicate k (0x3D :: code_unit) = [0x3D, 0x3D]"
      by (simp add: numeral_2_eq_2)
    have "enc @ [0x3D, 0x3D] = (enc @ [0x3D]) @ [0x3D]" by simp
    then show ?thesis
      using 3 assms(2) unfolding r strip_padding_def
      by (simp add: butlast_append del: append_assoc append.simps)
  qed
qed



lemma unat_b64_char: "i < 64 \<Longrightarrow> unat (of_nat (b64_char i) :: code_unit) = b64_char i"
  using b64_char_bound [of i] by (simp add: unat_of_nat)

lemma b64_unit:
  assumes "i < 64"
  shows "\<not> ascii_whitespace (of_nat (b64_char i))"
    and "(of_nat (b64_char i) :: code_unit) \<noteq> 0x3D"
    and "b64_value (unat (of_nat (b64_char i) :: code_unit)) = Some i"
proof -
  let ?x = "of_nat (b64_char i) :: code_unit"
  have u: "unat ?x = b64_char i" using assms by (rule unat_b64_char)
  have "unat ?x \<noteq> 9 \<and> unat ?x \<noteq> 10 \<and> unat ?x \<noteq> 12 \<and> unat ?x \<noteq> 13 \<and> unat ?x \<noteq> 32
        \<and> unat ?x \<noteq> 61"
    using b64_char_bound [OF assms] unfolding u by arith
  then show "\<not> ascii_whitespace ?x" and "?x \<noteq> 0x3D"
    unfolding ascii_whitespace_def by auto
  show "b64_value (unat ?x) = Some i"
    unfolding u using assms by (rule b64_value_char)
qed

lemma atob_btoa:
  assumes "latin1 s"
  shows "\<exists>p. btoa s = Inr p \<and> atob p = Inr s"
proof -
  let ?bs = "map unat s"
  let ?enc = "map (\<lambda>i. of_nat (b64_char i) :: code_unit) (b64_sextets ?bs)"
  let ?k = "b64_padding (length s)"
  let ?p = "?enc @ replicate ?k 0x3D"
  have bytes: "\<forall>b \<in> set ?bs. b < 256"
    using assms by (auto simp: latin1_def word_le_nat_alt)
  have six: "i < 64" if "i \<in> set (b64_sextets ?bs)" for i
    using sextets_lt [OF bytes that] .
  have btoa: "btoa s = Inr ?p"
    using assms by (auto simp: btoa_def latin1_def not_less)
  have no_ws: "\<not> ascii_whitespace x" if "x \<in> set ?p" for x
    using that six b64_unit(1) by (auto simp: ascii_whitespace_def)
  have filtered: "filter (\<lambda>c. \<not> ascii_whitespace c) ?p = ?p"
    using no_ws by (simp only: filter_id_conv) blast
  have no_pad: "0x3D \<notin> set ?enc"
    using six b64_unit(2) by auto
  have len: "(length ?enc + ?k) mod 4 = 0"
    using padded_length [of ?bs] by simp
  have stripped: "strip_padding ?p = ?enc"
    using strip_padding_append [OF no_pad len padding_cases] .
  have not_one: "length ?enc mod 4 \<noteq> 1"
    using len padding_cases [of "length s"] by presburger
  have valid: "\<not> (\<exists>c \<in> set ?enc. b64_value (unat c) = None)"
    using six b64_unit(3) by auto
  have sextets: "map (\<lambda>c. the (b64_value (unat c))) ?enc = b64_sextets ?bs"
    using six b64_unit(3) by (simp add: map_idI)
  have restored: "map of_nat (b64_bytes (b64_sextets ?bs)) = s"
    unfolding b64_bytes_sextets [OF bytes] by (simp add: map_idI)
  have "atob ?p = Inr s"
    unfolding atob_def filtered stripped Let_def sextets restored
    using not_one valid by simp
  with btoa show ?thesis by blast
qed

subsection \<open>JSON.parse after JSON.stringify: strings\<close>

lemma unat_code_unit: "n < 65536 \<Longrightarrow> unat (of_nat n :: code_unit) = n"
  by (simp add: unat_of_nat)

lemma hex_value_digit:
  assumes "i < 16"
  shows "hex_value (hex_digit i) = Some i"
proof (cases "i < 10")
  case True
  have u: "unat (hex_digit i) = 48 + i"
    unfolding hex_digit_def using True unat_code_unit [of "48 + i"] by (simp del: of_nat_add)
  show ?thesis
    unfolding hex_value_def word_le_nat_alt u using True by simp
next
  case False
  have u: "unat (hex_digit i) = 87 + i"
    unfolding hex_digit_def using False assms unat_code_unit [of "87 + i"]
    by (simp del: of_nat_add)
  show ?thesis
    unfolding hex_value_def word_le_nat_alt u using False assms by simp
qed

lemma hex_places:
  fixes n :: nat
  assumes "n < 65536"
  shows "n div 4096 < 16"
    and "((n div 4096 * 16 + n div 256 mod 16) * 16 + n div 16 mod 16) * 16 + n mod 16 = n"
proof -
  show "n div 4096 < 16" using assms by (simp add: div_less_iff_less_mult)
  have a: "n div 256 = n div 16 div 16" and b: "n div 4096 = n div 256 div 16"
    by (simp_all add: div_mult2_eq [symmetric])
  have "n div 4096 * 16 + n div 256 mod 16 = n div 256"
    unfolding b by simp
  moreover have "n div 256 * 16 + n div 16 mod 16 = n div 16"
    unfolding a by simp
  ultimately show "((n div 4096 * 16 + n div 256 mod 16) * 16 + n div 16 mod 16) * 16 + n mod 16 = n"
    by simp
qed

lemma hex4_unicode_escape:
  "unicode_escape c = [0x5C, 0x75, h1, h2, h3, h4] \<Longrightarrow> hex4 h1 h2 h3 h4 = Some c"
proof -
  assume e: "unicode_escape c = [0x5C, 0x75, h1, h2, h3, h4]"
  let ?n = "unat c"
  have n: "?n < 65536" using unsigned_less [of c] by simp
  have h: "h1 = hex_digit (?n div 4096)" "h2 = hex_digit (?n div 256 mod 16)"
    "h3 = hex_digit (?n div 16 mod 16)" "h4 = hex_digit (?n mod 16)"
    using e by (simp_all add: unicode_escape_def Let_def)
  show ?thesis
    unfolding h hex4_def
    using hex_places [OF n]
    by (simp add: hex_value_digit)
qed


lemma parse_unicode_escape:
  "parse_chars (unicode_escape c @ tail) = cons_result c (parse_chars tail)"
proof -
  obtain h1 h2 h3 h4 where e: "unicode_escape c = [0x5C, 0x75, h1, h2, h3, h4]"
    by (simp add: unicode_escape_def Let_def)
  show ?thesis
    unfolding e using hex4_unicode_escape [OF e]
    by (simp add: parse_escape_def)
qed

lemma no_surrogate: "c \<le> 0xFF \<Longrightarrow> \<not> leading_surrogate c \<and> \<not> trailing_surrogate c"
  by (auto simp: leading_surrogate_def trailing_surrogate_def word_le_nat_alt)

lemma parse_quote_unit:
  assumes "c \<le> 0xFF"
  shows "parse_chars (quote_unit c @ tail) = cons_result c (parse_chars tail)"
proof -
  consider "c = 0x08" | "c = 0x09" | "c = 0x0A" | "c = 0x0C" | "c = 0x0D" | "c = 0x22" | "c = 0x5C"
    | "c \<notin> {0x08, 0x09, 0x0A, 0x0C, 0x0D, 0x22, 0x5C}" "c < 0x20"
    | "c \<notin> {0x08, 0x09, 0x0A, 0x0C, 0x0D, 0x22, 0x5C}" "\<not> c < 0x20"
    by blast
  then show ?thesis
  proof cases
    case 8
    then have "quote_unit c = unicode_escape c" by (simp add: quote_unit_def)
    then show ?thesis by (simp add: parse_unicode_escape)
  next
    case 9
    then have "quote_unit c = [c]"
      using no_surrogate [OF assms] by (simp add: quote_unit_def)
    then show ?thesis using 9 by simp
  qed (simp_all add: quote_unit_def parse_escape_def unescape_def)
qed

lemma parse_quote_chars:
  "latin1 s \<Longrightarrow> parse_chars (quote_chars s @ 0x22 # rest) = Inr (s, rest)"
proof (induction s rule: quote_chars.induct)
  case 1
  then show ?case by simp
next
  case (2 c)
  then show ?case by (simp add: latin1_def parse_quote_unit cons_result_def)
next
  case (3 c d cs)
  then have c: "c \<le> 0xFF" and rest: "latin1 (d # cs)" by (simp_all add: latin1_def)
  have "quote_chars (c # d # cs) = quote_unit c @ quote_chars (d # cs)"
    using no_surrogate [OF c] by simp
  then show ?case
    using 3(2) [OF _ rest] no_surrogate [OF c]
    by (simp add: parse_quote_unit [OF c] cons_result_def del: parse_chars.simps quote_chars.simps)
qed


subsection \<open>JSON.parse after JSON.stringify: numbers\<close>

definition digit :: "nat \<Rightarrow> code_unit" where
  "digit k = of_nat (48 + k)"

lemma unat_digit: "k < 10 \<Longrightarrow> unat (digit k) = 48 + k"
  unfolding digit_def using unat_code_unit [of "48 + k"] by simp

lemma is_digit_digit: "k < 10 \<Longrightarrow> is_digit (digit k)"
  unfolding is_digit_def word_le_nat_alt by (simp add: unat_digit)

lemma digit_zero: "k < 10 \<Longrightarrow> digit k = 0x30 \<longleftrightarrow> k = 0"
proof
  assume "k < 10" "digit k = 0x30"
  then have "unat (digit k) = 48" by simp
  then show "k = 0" using \<open>k < 10\<close> by (simp add: unat_digit)
qed (simp add: digit_def)

lemma decimal_small: "n < 10 \<Longrightarrow> decimal n = [digit n]"
  by (simp add: decimal.simps [of n] digit_def)

lemma decimal_large: "\<not> n < 10 \<Longrightarrow> decimal n = decimal (n div 10) @ [digit (n mod 10)]"
  by (simp add: decimal.simps [of n] digit_def)

lemma decimal_digits: "c \<in> set (decimal n) \<Longrightarrow> is_digit c"
proof (induction n arbitrary: c rule: decimal.induct)
  case (1 n)
  show ?case
  proof (cases "n < 10")
    case True
    then show ?thesis using 1(2) by (simp add: decimal_small is_digit_digit)
  next
    case False
    then show ?thesis
      using 1 by (auto simp: decimal_large is_digit_digit)
  qed
qed

lemma decimal_not_Nil: "decimal n \<noteq> []"
  by (cases "n < 10") (simp_all add: decimal_small decimal_large)

lemma decimal_hd: "hd (decimal n) = 0x30 \<longleftrightarrow> n = 0"
proof (induction n rule: decimal.induct)
  case (1 n)
  show ?case
  proof (cases "n < 10")
    case True
    then show ?thesis by (simp add: decimal_small digit_zero)
  next
    case False
    then have "hd (decimal n) = hd (decimal (n div 10))"
      by (simp add: decimal_large decimal_not_Nil)
    then show ?thesis using 1 [OF False] False by simp
  qed
qed

lemma digits_value_snoc: "digits_value (ds @ [d]) = 10 * digits_value ds + (unat d - 48)"
  by (simp add: digits_value_def)

lemma digits_value_decimal: "digits_value (decimal n) = n"
proof (induction n rule: decimal.induct)
  case (1 n)
  show ?case
  proof (cases "n < 10")
    case True
    then show ?thesis by (simp add: decimal_small digits_value_def unat_digit)
  next
    case False
    then show ?thesis
      using 1 [OF False] by (simp add: decimal_large digits_value_snoc unat_digit)
  qed
qed

text \<open>What may follow a value: nothing, a comma, a closing bracket or brace.\<close>

definition delimited :: "jsstring \<Rightarrow> bool" where
  "delimited rest \<longleftrightarrow> rest = [] \<or> hd rest = 0x2C \<or> hd rest = 0x5D \<or> hd rest = 0x7D"

lemma delimited_not_digit: "delimited rest \<Longrightarrow> rest = [] \<or> \<not> is_digit (hd rest)"
  by (auto simp: delimited_def is_digit_def)

lemma takeWhile_decimal:
  assumes "delimited rest"
  shows "takeWhile is_digit (decimal n @ rest) = decimal n"
proof -
  have "takeWhile is_digit rest = []"
    using delimited_not_digit [OF assms] by (cases rest) auto
  then show ?thesis
    using decimal_digits by (simp add: takeWhile_append2)
qed

lemma parse_number_decimal:
  assumes "n \<le> 9007199254740992" and "delimited rest"
  shows "parse_number (decimal n @ rest) = Inr (JNumber n, rest)"
proof -
  obtain c cs where d: "decimal n = c # cs"
    using decimal_not_Nil [of n] by (cases "decimal n") auto
  have c: "is_digit c" using decimal_digits [of c n] d by simp
  then have minus: "c \<noteq> 0x2D" by (auto simp: is_digit_def)
  have follow: "\<not> (rest \<noteq> [] \<and> (hd rest = 0x2E \<or> hd rest = 0x65 \<or> hd rest = 0x45))"
    using assms(2) by (auto simp: delimited_def)
  show ?thesis
  proof (cases "n = 0")
    case True
    then have "decimal n = [0x30]" by (simp add: decimal_small digit_def)
    then show ?thesis
      using True follow by (simp add: parse_number_def digits_value_def)
  next
    case False
    then have "c \<noteq> 0x30" using decimal_hd [of n] d by simp
    moreover have "takeWhile is_digit (c # cs @ rest) = c # cs"
      using takeWhile_decimal [OF assms(2), of n] d by simp
    moreover have "digits_value (c # cs) = n"
      using digits_value_decimal [of n] d by simp
    ultimately show ?thesis
      using minus follow assms(1) d
      by (simp add: parse_number_def Let_def del: takeWhile.simps)
  qed
qed


subsection \<open>JSON.parse after JSON.stringify: values\<close>

text \<open>
  The values whose printed form \<^verbatim>\<open>btoa\<close> accepts and \<^verbatim>\<open>JSON.parse\<close> reads back: strings and
  property names within U+00FF, numbers up to \<open>2^53\<close>, no property name twice in an
  object.
\<close>

fun encodable :: "json \<Rightarrow> bool" where
  "encodable JNull = True"
| "encodable (JBool b) = True"
| "encodable (JNumber n) = (n \<le> 9007199254740992)"
| "encodable (JString s) = latin1 s"
| "encodable (JArray xs) = (\<forall>x \<in> set xs. encodable x)"
| "encodable (JObject kvs) =
     (distinct (map fst kvs) \<and> (\<forall>kv \<in> set kvs. latin1 (fst kv) \<and> encodable (snd kv)))"

definition value_start :: "code_unit \<Rightarrow> bool" where
  "value_start c \<longleftrightarrow> \<not> json_ws c \<and> c \<noteq> 0x5D \<and> c \<noteq> 0x7D"

lemma skip_ws_start: "\<not> json_ws c \<Longrightarrow> skip_ws (c # cs) = c # cs"
  by (simp add: skip_ws_def)

lemma stringify_start: "\<exists>c cs. JSON_stringify v = c # cs \<and> value_start c"
proof (cases v)
  case (JNumber n)
  obtain c cs where d: "decimal n = c # cs"
    using decimal_not_Nil [of n] by (cases "decimal n") auto
  have "is_digit c" using decimal_digits [of c n] d by simp
  then have "value_start c" by (auto simp: value_start_def is_digit_def json_ws_def)
  then show ?thesis using JNumber d by simp
qed (simp_all add: value_start_def json_ws_def str_def quote_def)

text \<open>A value reads back when parsing its printed form, before a delimiter, returns it.\<close>

definition reads_back :: "json \<Rightarrow> bool" where
  "reads_back v \<longleftrightarrow>
     (\<forall>rest. delimited rest \<longrightarrow> parse_value (JSON_stringify v @ rest) = Inr (v, rest))"

lemma parse_value_after_ws:
  assumes "reads_back v" and "delimited rest"
  shows "parse_value (skip_ws (JSON_stringify v @ rest)) = Inr (v, rest)"
proof -
  obtain c cs where s: "JSON_stringify v = c # cs" and "value_start c"
    using stringify_start [of v] by blast
  then have "skip_ws (JSON_stringify v @ rest) = JSON_stringify v @ rest"
    by (simp add: skip_ws_start value_start_def)
  then show ?thesis using assms by (simp add: reads_back_def)
qed

lemma stringify_not_Nil: "JSON_stringify v \<noteq> []"
  using stringify_start [of v] by auto

lemma parse_elements_join:
  assumes "\<forall>x \<in> set xs. reads_back x" and "xs \<noteq> []"
  shows "parse_elements acc (join 0x2C (map JSON_stringify xs) @ 0x5D # rest)
           = Inr (JArray (acc @ xs), rest)"
  using assms
proof (induction xs arbitrary: acc)
  case Nil
  then show ?case by simp
next
  case (Cons x xs)
  then have x: "reads_back x" by simp
  show ?case
  proof (cases "xs = []")
    case True
    have d: "delimited (0x5D # rest)" by (simp add: delimited_def)
    show ?thesis
      unfolding True
      by (subst parse_elements.simps)
         (simp add: parse_value_after_ws [OF x d] stringify_not_Nil skip_ws_start json_ws_def)
  next
    case False
    let ?tail = "join 0x2C (map JSON_stringify xs) @ 0x5D # rest"
    have d: "delimited (0x2C # ?tail)" by (simp add: delimited_def)
    have j: "join 0x2C (map JSON_stringify (x # xs)) @ 0x5D # rest
               = JSON_stringify x @ 0x2C # ?tail"
      using False by (simp add: join_Cons)
    have IH: "parse_elements (acc @ [x]) ?tail = Inr (JArray ((acc @ [x]) @ xs), rest)"
      using Cons.IH [of "acc @ [x]"] Cons.prems False by simp
    show ?thesis
      unfolding j
      by (subst parse_elements.simps)
         (simp add: parse_value_after_ws [OF x d] stringify_not_Nil skip_ws_start json_ws_def IH
            del: parse_elements.simps)
  qed
qed


lemma update_new: "k \<notin> set (map fst acc) \<Longrightarrow> update k v acc = acc @ [(k, v)]"
  by (induction acc) auto

lemma parse_member:
  assumes "latin1 k" and "reads_back v" and "d = 0x2C \<or> d = 0x7D"
  shows "parse_members acc (quote k @ 0x3A # JSON_stringify v @ d # tail)
           = (if d = 0x2C then parse_members (update k v acc) tail
              else Inr (JObject (update k v acc), tail))"
proof -
  have d: "delimited (d # tail)" and ws: "\<not> json_ws d"
    using assms(3) by (auto simp: delimited_def json_ws_def)
  have q: "quote k @ 0x3A # JSON_stringify v @ d # tail
             = 0x22 # quote_chars k @ 0x22 # 0x3A # JSON_stringify v @ d # tail"
    by (simp add: quote_def)
  have s: "skip_ws (d # tail) = d # tail"
    using ws by (rule skip_ws_start)
  from assms(3) show ?thesis
  proof
    assume "d = 0x2C"
    then show ?thesis
      unfolding q
      by (subst parse_members.simps)
         (simp add: skip_ws_start json_ws_def parse_quote_chars [OF assms(1)]
            parse_value_after_ws [OF assms(2) d, unfolded \<open>d = 0x2C\<close>] stringify_not_Nil
            del: parse_members.simps)
  next
    assume "d = 0x7D"
    then show ?thesis
      unfolding q
      by (subst parse_members.simps)
         (simp add: skip_ws_start json_ws_def parse_quote_chars [OF assms(1)]
            parse_value_after_ws [OF assms(2) d, unfolded \<open>d = 0x7D\<close>] stringify_not_Nil
            del: parse_members.simps)
  qed
qed

lemma parse_members_join:
  assumes "\<forall>kv \<in> set kvs. latin1 (fst kv) \<and> reads_back (snd kv)" and "kvs \<noteq> []"
    and "distinct (map fst (acc @ kvs))"
  shows "parse_members acc
           (join 0x2C (map (\<lambda>kv. quote (fst kv) @ 0x3A # JSON_stringify (snd kv)) kvs) @ 0x7D # rest)
           = Inr (JObject (acc @ kvs), rest)"
  using assms
proof (induction kvs arbitrary: acc)
  case Nil
  then show ?case by simp
next
  case (Cons kv kvs)
  obtain k v where kv: "kv = (k, v)" by (cases kv)
  have k: "latin1 k" and v: "reads_back v" using Cons.prems(1) kv by simp_all
  have new: "update k v acc = acc @ [(k, v)]"
    using Cons.prems(3) kv by (intro update_new) auto
  show ?case
  proof (cases "kvs = []")
    case True
    show ?thesis
      unfolding True kv using parse_member [OF k v, of "0x7D" acc rest] new by simp
  next
    case False
    let ?tail = "join 0x2C (map (\<lambda>kv. quote (fst kv) @ 0x3A # JSON_stringify (snd kv)) kvs) @ 0x7D # rest"
    have j: "join 0x2C (map (\<lambda>kv. quote (fst kv) @ 0x3A # JSON_stringify (snd kv)) (kv # kvs)) @ 0x7D # rest
               = quote k @ 0x3A # JSON_stringify v @ 0x2C # ?tail"
      using False kv by (simp add: join_Cons)
    have IH: "parse_members (acc @ [(k, v)]) ?tail = Inr (JObject ((acc @ [(k, v)]) @ kvs), rest)"
      using Cons.IH [of "acc @ [(k, v)]"] Cons.prems False kv by simp
    show ?thesis
      unfolding j using parse_member [OF k v, of "0x2C" acc ?tail] new IH kv by simp
  qed
qed

lemma reads_back_encodable: "encodable v \<Longrightarrow> reads_back v"
proof (induction v)
  case JNull
  show ?case by (simp add: reads_back_def str_def parse_literal_def)
next
  case (JBool b)
  show ?case by (cases b) (simp_all add: reads_back_def str_def parse_literal_def)
next
  case (JNumber n)
  have "parse_value (decimal n @ rest) = parse_number (decimal n @ rest)" for rest
  proof -
    obtain c cs where d: "decimal n = c # cs"
      using decimal_not_Nil [of n] by (cases "decimal n") auto
    have "is_digit c" using decimal_digits [of c n] d by simp
    then show ?thesis unfolding d by (auto simp: is_digit_def)
  qed
  then show ?case using JNumber by (simp add: reads_back_def parse_number_decimal)
next
  case (JString s)
  then show ?case by (simp add: reads_back_def quote_def parse_quote_chars)
next
  case (JArray xs)
  then have each: "\<forall>x \<in> set xs. reads_back x" by simp
  show ?case
  proof (cases "xs = []")
    case True
    then show ?thesis by (simp add: reads_back_def skip_ws_start json_ws_def)
  next
    case False
    then obtain x xs' where xs: "xs = x # xs'" by (cases xs) auto
    obtain c cs where s: "JSON_stringify x = c # cs" and c: "value_start c"
      using stringify_start [of x] by blast
    have "\<exists>cs'. join 0x2C (map JSON_stringify xs) = c # cs'"
      unfolding xs using s by (cases xs') simp_all
    then obtain cs' where j: "join 0x2C (map JSON_stringify xs) = c # cs'" by blast
    show ?thesis
      unfolding reads_back_def
    proof (intro allI impI)
      fix rest
      have "parse_value (JSON_stringify (JArray xs) @ rest)
              = parse_elements [] (join 0x2C (map JSON_stringify xs) @ 0x5D # rest)"
        using c by (simp add: j skip_ws_start value_start_def del: parse_elements.simps)
      then show "parse_value (JSON_stringify (JArray xs) @ rest) = Inr (JArray xs, rest)"
        using parse_elements_join [OF each False, of "[]" rest] by simp
    qed
  qed
next
  case (JObject kvs)
  then have each: "\<forall>kv \<in> set kvs. latin1 (fst kv) \<and> reads_back (snd kv)"
    and keys: "distinct (map fst ([] @ kvs))"
    by (auto simp: snds.simps)
  let ?member = "\<lambda>kv. quote (fst kv) @ 0x3A # JSON_stringify (snd kv)"
  show ?case
  proof (cases "kvs = []")
    case True
    then show ?thesis by (simp add: reads_back_def skip_ws_start json_ws_def)
  next
    case False
    then obtain kv kvs' where kvs: "kvs = kv # kvs'" by (cases kvs) auto
    have "\<exists>cs'. join 0x2C (map ?member kvs) = 0x22 # cs'"
      unfolding kvs by (cases kvs') (simp_all add: quote_def)
    then obtain cs' where j: "join 0x2C (map ?member kvs) = 0x22 # cs'" by blast
    show ?thesis
      unfolding reads_back_def
    proof (intro allI impI)
      fix rest
      have "parse_value (JSON_stringify (JObject kvs) @ rest)
              = parse_members [] (join 0x2C (map ?member kvs) @ 0x7D # rest)"
        by (simp add: j skip_ws_start json_ws_def del: parse_members.simps)
      then show "parse_value (JSON_stringify (JObject kvs) @ rest) = Inr (JObject kvs, rest)"
        using parse_members_join [OF each False keys, of rest] by simp
    qed
  qed
qed

lemma JSON_parse_stringify:
  assumes "encodable v"
  shows "JSON_parse (JSON_stringify v) = Inr v"
proof -
  have "delimited []" by (simp add: delimited_def)
  then have "parse_value (skip_ws (JSON_stringify v)) = Inr (v, [])"
    using parse_value_after_ws [OF reads_back_encodable [OF assms], of "[]"] by simp
  then show ?thesis by (simp add: JSON_parse_def skip_ws_def)
qed


subsection \<open>What is printed stays within U+00FF\<close>

lemma latin1_append: "latin1 (a @ b) \<longleftrightarrow> latin1 a \<and> latin1 b"
  by (auto simp: latin1_def)

lemma latin1_Cons: "latin1 (c # s) \<longleftrightarrow> c \<le> 0xFF \<and> latin1 s"
  by (simp add: latin1_def)

lemma latin1_Nil: "latin1 []"
  by (simp add: latin1_def)

lemma latin1_str: "latin1 (str s)"
proof -
  have "(of_nat (of_char c) :: code_unit) \<le> 0xFF" for c :: char
  proof -
    have "(of_char c :: nat) mod 256 = of_char c" by simp
    then have lt: "(of_char c :: nat) < 256" by (metis mod_less_divisor zero_less_numeral)
    then have "(of_char c :: nat) < 65536" by linarith
    then have u: "unat (of_nat (of_char c) :: code_unit) = of_char c" by (rule unat_code_unit)
    have m: "unat (0xFF :: code_unit) = 255" by simp
    show ?thesis unfolding word_le_nat_alt u m using lt by linarith
  qed
  then show ?thesis by (auto simp: latin1_def str_def)
qed

lemma hex_digit_latin1: "i < 16 \<Longrightarrow> hex_digit i \<le> 0xFF"
  using unat_code_unit [of "48 + i"] unat_code_unit [of "87 + i"]
  by (simp add: hex_digit_def word_le_nat_alt del: of_nat_add)

lemma latin1_quote_unit: "c \<le> 0xFF \<Longrightarrow> latin1 (quote_unit c)"
proof -
  assume c: "c \<le> 0xFF"
  have "unat c < 65536" using unsigned_less [of c] by simp
  then have "unat c div 4096 < 16" by (simp add: div_less_iff_less_mult)
  then have "latin1 (unicode_escape c)"
    by (simp add: unicode_escape_def Let_def latin1_Cons latin1_Nil hex_digit_latin1)
  then show ?thesis
    using c by (simp add: quote_unit_def latin1_Cons latin1_Nil)
qed

lemma latin1_quote_chars: "latin1 s \<Longrightarrow> latin1 (quote_chars s)"
proof (induction s rule: quote_chars.induct)
  case 1
  then show ?case by (simp add: latin1_Nil)
next
  case (2 c)
  then show ?case by (simp add: latin1_Cons latin1_quote_unit)
next
  case (3 c d cs)
  then show ?case
    by (auto simp: latin1_Cons latin1_append latin1_quote_unit)
qed

lemma latin1_quote: "latin1 s \<Longrightarrow> latin1 (quote s)"
  by (simp add: quote_def latin1_Cons latin1_append latin1_quote_chars latin1_Nil)

lemma latin1_decimal: "latin1 (decimal n)"
proof -
  have "c \<le> 0xFF" if "c \<in> set (decimal n)" for c
  proof -
    have "c \<le> 0x39" using decimal_digits [OF that] by (simp add: is_digit_def)
    then show ?thesis by (simp add: word_le_nat_alt)
  qed
  then show ?thesis by (simp add: latin1_def)
qed

lemma latin1_join:
  "sep \<le> 0xFF \<Longrightarrow> \<forall>x \<in> set xs. latin1 x \<Longrightarrow> latin1 (join sep xs)"
  by (induction sep xs rule: join.induct) (simp_all add: latin1_Nil latin1_append latin1_Cons)

lemma latin1_stringify: "encodable v \<Longrightarrow> latin1 (JSON_stringify v)"
proof (induction v)
  case (JArray xs)
  then have "\<forall>s \<in> set (map JSON_stringify xs). latin1 s" by simp
  then show ?case
    by (simp add: latin1_Cons latin1_append latin1_Nil latin1_join)
next
  case (JObject kvs)
  then have "\<forall>s \<in> set (map (\<lambda>kv. quote (fst kv) @ 0x3A # JSON_stringify (snd kv)) kvs). latin1 s"
    by (auto simp: latin1_append latin1_Cons latin1_quote snds.simps)
  then show ?case
    by (simp add: latin1_Cons latin1_append latin1_Nil latin1_join)
qed (simp_all add: latin1_str latin1_decimal latin1_quote)

lemma decode_encode:
  assumes "encodable v"
  shows "\<exists>p. btoa (JSON_stringify v) = Inr p \<and> parseSessionPayload p = Inr v"
proof -
  obtain p where "btoa (JSON_stringify v) = Inr p" and "atob p = Inr (JSON_stringify v)"
    using atob_btoa [OF latin1_stringify [OF assms]] by blast
  then show ?thesis
    by (simp add: parseSessionPayload_def JSON_parse_stringify [OF assms])
qed

subsection \<open>Payloads\<close>

text \<open>
  The session descriptions and candidates whose strings stay within U+00FF. Those the
  engine makes do: SDP and candidate lines are ASCII.
\<close>

definition latin1_option :: "jsstring option \<Rightarrow> bool" where
  "latin1_option s = (case s of None \<Rightarrow> True | Some x \<Rightarrow> latin1 x)"

definition latin1_session :: "session_description \<Rightarrow> bool" where
  "latin1_session d = latin1_option (sdp d)"

definition latin1_candidate :: "ice_candidate \<Rightarrow> bool" where
  "latin1_candidate c \<longleftrightarrow>
     latin1 (candidate c) \<and> latin1_option (sdpMid c) \<and> latin1_option (usernameFragment c)"

lemma encodable_session: "latin1_session d \<Longrightarrow> encodable (session_json d)"
proof -
  assume d: "latin1_session d"
  have keys: "str ''type'' \<noteq> str ''sdp''" by (simp add: str_def)
  have name: "latin1 (sdp_type_name (sdpType d))"
    by (cases "sdpType d") (simp_all add: latin1_str)
  show ?thesis
    using d keys name
    by (auto simp: session_json_def latin1_session_def latin1_option_def latin1_str
        split: option.splits)
qed

lemma encodable_candidate: "latin1_candidate c \<Longrightarrow> encodable (candidate_json c)"
proof -
  assume c: "latin1_candidate c"
  have "unat n \<le> 9007199254740992" for n :: "16 word"
    using unsigned_less [of n, where 'a = nat] by simp
  then have "encodable (nullable (\<lambda>n. JNumber (unat n)) (sdpMLineIndex c))"
    by (simp add: nullable_def split: option.splits)
  moreover have "encodable (nullable JString (sdpMid c))"
    "encodable (nullable JString (usernameFragment c))"
    using c by (simp_all add: latin1_candidate_def latin1_option_def nullable_def split: option.splits)
  moreover have "distinct [str ''candidate'', str ''sdpMid'', str ''sdpMLineIndex'', str ''usernameFragment'']"
    by (simp add: str_def)
  ultimately show ?thesis
    using c by (simp add: candidate_json_def latin1_candidate_def latin1_str)
qed

lemma encodable_payload:
  "latin1_session d \<Longrightarrow> \<forall>c \<in> set cs. latin1_candidate c \<Longrightarrow> encodable (payload_json d cs)"
  by (simp add: payload_json_def encodable_session encodable_candidate latin1_str) (simp add: str_def)

lemma btoa_example:
  "btoa (JSON_stringify (payload_json example_offer [host_candidate]))
     = Inr (str ''eyJzZXNzaW9uIjp7InR5cGUiOiJvZmZlciIsInNkcCI6InY9MCJ9LCJpY2VDYW5kaWRhdGVzIjpbeyJjYW5kaWRhdGUiOiJjYW5kaWRhdGU6MSAxIHVkcCAyMTIyMjYwMjIzIDE5Mi4wLjIuMSA1NDMyMSB0eXAgaG9zdCIsInNkcE1pZCI6IjAiLCJzZHBNTGluZUluZGV4IjowLCJ1c2VybmFtZUZyYWdtZW50IjpudWxsfV19'')"
proof -
  have "JSON_stringify (payload_json example_offer [host_candidate])
     = str ''{'' @ 0x22 # str ''session'' @ 0x22 # str '':{'' @ 0x22 # str ''type'' @ 0x22
       # str '':'' @ 0x22 # str ''offer'' @ 0x22 # str '','' @ 0x22 # str ''sdp'' @ 0x22
       # str '':'' @ 0x22 # str ''v=0'' @ 0x22 # str ''},'' @ 0x22 # str ''iceCandidates'' @ 0x22
       # str '':[{'' @ 0x22 # str ''candidate'' @ 0x22 # str '':'' @ 0x22
       # str ''candidate:1 1 udp 2122260223 192.0.2.1 54321 typ host'' @ 0x22 # str '','' @ 0x22
       # str ''sdpMid'' @ 0x22 # str '':'' @ 0x22 # str ''0'' @ 0x22 # str '','' @ 0x22
       # str ''sdpMLineIndex'' @ 0x22 # str '':0,'' @ 0x22 # str ''usernameFragment'' @ 0x22
       # str '':null}]}''"
    by (simp add: payload_json_def example_offer_def host_candidate_def session_json_def
        candidate_json_def nullable_def str_def quote_def quote_unit_def decimal.simps
        leading_surrogate_def trailing_surrogate_def)
  then show ?thesis
    by (simp add: btoa_def str_def b64_char_def b64_padding_def)
qed

lemma latin1_examples: "latin1_session example_offer" "latin1_candidate host_candidate"
  by (simp_all add: latin1_session_def latin1_candidate_def latin1_option_def latin1_str
      example_offer_def host_candidate_def)

lemma createSessionPayload_Fulfilled:
  assumes "createSessionPayload session sched w = (Fulfilled payload, sched', w')"
  shows "waitForIceCandidates sched w = (Fulfilled (), sched', w')"
    and "btoa (JSON_stringify (payload_json session (iceCandidates w'))) = Inr payload"
proof -
  obtain p s1 w1 where r: "waitForIceCandidates sched w = (p, s1, w1)"
    by (cases "waitForIceCandidates sched w")
  have "p = Fulfilled () \<and> s1 = sched' \<and> w1 = w'
        \<and> btoa (JSON_stringify (payload_json session (iceCandidates w'))) = Inr payload"
    using assms r
    by (cases p) (auto simp: createSessionPayload_def andThen_def split: sum.splits)
  with r show "waitForIceCandidates sched w = (Fulfilled (), sched', w')"
    and "btoa (JSON_stringify (payload_json session (iceCandidates w'))) = Inr payload"
    by simp_all
qed

text \<open>
  C2, amended. For every session description and every candidate sequence whose strings
  stay within U+00FF, the payload is encoded, and decoding it gives back the value that
  was encoded, \<^verbatim>\<open>{ session, iceCandidates }\<close>: so does the payload \<^verbatim>\<open>createSessionPayload\<close>
  returns. (A code unit above U+00FF makes \<^verbatim>\<open>btoa\<close> throw: there is then no payload to
  decode.)
\<close>

theorem payload_round_trip:
  "(latin1_session session \<and> (\<forall>c \<in> set cands. latin1_candidate c) \<longrightarrow>
      (\<exists>payload. btoa (JSON_stringify (payload_json session cands)) = Inr payload
         \<and> parseSessionPayload payload = Inr (payload_json session cands)))
   \<and> (createSessionPayload session sched w = (Fulfilled made, sched', w')
        \<and> latin1_session session \<and> (\<forall>c \<in> set (iceCandidates w'). latin1_candidate c) \<longrightarrow>
      parseSessionPayload made = Inr (payload_json session (iceCandidates w')))"
proof (intro conjI impI)
  assume "latin1_session session \<and> (\<forall>c \<in> set cands. latin1_candidate c)"
  then show "\<exists>payload. btoa (JSON_stringify (payload_json session cands)) = Inr payload
         \<and> parseSessionPayload payload = Inr (payload_json session cands)"
    using decode_encode [OF encodable_payload] by blast
next
  assume a: "createSessionPayload session sched w = (Fulfilled made, sched', w')
        \<and> latin1_session session \<and> (\<forall>c \<in> set (iceCandidates w'). latin1_candidate c)"
  then have "btoa (JSON_stringify (payload_json session (iceCandidates w'))) = Inr made"
    using createSessionPayload_Fulfilled(2) by blast
  then show "parseSessionPayload made = Inr (payload_json session (iceCandidates w'))"
    using decode_encode [OF encodable_payload, of session "iceCandidates w'"] a by auto
qed

text \<open>
  The witness: the example offer with the host candidate, encoded, and the payload a
  controller makes of them once its gathering is complete.
\<close>

theorem payload_round_trip_witness:
  "latin1_session example_offer \<and> latin1_candidate host_candidate
   \<and> btoa (JSON_stringify (payload_json example_offer [host_candidate]))
       = Inr (str ''eyJzZXNzaW9uIjp7InR5cGUiOiJvZmZlciIsInNkcCI6InY9MCJ9LCJpY2VDYW5kaWRhdGVzIjpbeyJjYW5kaWRhdGUiOiJjYW5kaWRhdGU6MSAxIHVkcCAyMTIyMjYwMjIzIDE5Mi4wLjIuMSA1NDMyMSB0eXAgaG9zdCIsInNkcE1pZCI6IjAiLCJzZHBNTGluZUluZGV4IjowLCJ1c2VybmFtZUZyYWdtZW50IjpudWxsfV19'')
   \<and> parseSessionPayload (str ''eyJzZXNzaW9uIjp7InR5cGUiOiJvZmZlciIsInNkcCI6InY9MCJ9LCJpY2VDYW5kaWRhdGVzIjpbeyJjYW5kaWRhdGUiOiJjYW5kaWRhdGU6MSAxIHVkcCAyMTIyMjYwMjIzIDE5Mi4wLjIuMSA1NDMyMSB0eXAgaG9zdCIsInNkcE1pZCI6IjAiLCJzZHBNTGluZUluZGV4IjowLCJ1c2VybmFtZUZyYWdtZW50IjpudWxsfV19'')
       = Inr (payload_json example_offer [host_candidate])"
  using payload_round_trip [where session = example_offer and cands = "[host_candidate]"
      and sched = "[]" and w = fresh and made = "[]" and sched' = "[]" and w' = fresh]
    latin1_examples btoa_example
  by auto

text \<open>
  Against C2 as stated: an SDP that holds the euro sign, U+20AC, is a session description,
  and it is not encoded: \<^verbatim>\<open>btoa\<close> throws, and \<^verbatim>\<open>createSessionPayload\<close> is rejected.
\<close>

theorem euro_sign_not_encoded:
  "btoa (JSON_stringify (payload_json \<lparr>sdpType = Offer, sdp = Some [0x20AC]\<rparr> []))
     = Inl InvalidCharacterError
   \<and> fst (createSessionPayload \<lparr>sdpType = Offer, sdp = Some [0x20AC]\<rparr> []
          (fresh\<lparr>peerConnection := new_connection\<lparr>iceGatheringState := Complete\<rparr>\<rparr>))
       = Rejected InvalidCharacterError"
proof -
  have "btoa (JSON_stringify (payload_json \<lparr>sdpType = Offer, sdp = Some [0x20AC]\<rparr> []))
     = Inl InvalidCharacterError"
    by (simp add: btoa_def payload_json_def session_json_def quote_def quote_unit_def str_def
        leading_surrogate_def trailing_surrogate_def)
  then show ?thesis
    by (simp add: createSessionPayload_def waitForIceCandidates.simps andThen_def fresh_def)
qed

section \<open>What decoding can raise\<close>







section \<open>Waiting for the gathering\<close>

definition complete :: "controller \<Rightarrow> bool" where
  "complete w \<longleftrightarrow> iceGatheringState (peerConnection w) = Complete"

lemma waitFor_not_complete:
  "\<not> complete w \<Longrightarrow> \<not> icegatheringstatechange e \<Longrightarrow> \<not> complete (dispatch e w)"
  by (cases e) (auto simp: complete_def handleIceCandidate_def handleDataChannel_def
      handleMessage_def showMessage_def split: option.splits)

lemma waitForIceCandidates_complete:
  "complete w \<Longrightarrow> waitForIceCandidates sched w = (Fulfilled (), sched, w)"
  by (simp add: waitForIceCandidates.simps [of sched w] complete_def)

lemma waitForIceCandidates_Nil:
  "\<not> complete w \<Longrightarrow> waitForIceCandidates [] w = (Unsettled, [], w)"
  by (simp add: waitForIceCandidates.simps [of "[]" w] complete_def)

lemma waitForIceCandidates_Settle:
  "\<not> complete w \<Longrightarrow> waitForIceCandidates (Settle # sched) w = waitForIceCandidates sched w"
  by (simp add: waitForIceCandidates.simps [of "Settle # sched" w]
      waitForIceCandidates.simps [of sched w] complete_def)

lemma waitForIceCandidates_Fire:
  assumes "\<not> complete w"
  shows "waitForIceCandidates (Fire e # sched) w = waitForIceCandidates sched (dispatch e w)"
proof (cases "icegatheringstatechange e")
  case True
  then show ?thesis
    using assms by (simp add: waitForIceCandidates.simps [of "Fire e # sched" w] complete_def)
next
  case False
  then have "\<not> complete (dispatch e w)" using assms by (simp add: waitFor_not_complete)
  then show ?thesis
    using assms False
    by (simp add: waitForIceCandidates.simps [of "Fire e # sched" w]
        waitForIceCandidates.simps [of sched "dispatch e w"] complete_def)
qed

lemma waitForIceCandidates_first:
  "waitForIceCandidates sched w = (p, sched', w') \<Longrightarrow>
   (\<exists>used. sched = used @ sched' \<and> w' = leftover used w
      \<and> (\<forall>n < length used. \<not> complete (leftover (take n used) w)))
   \<and> (if complete w' then p = Fulfilled () else p = Unsettled \<and> sched' = [])"
proof (induction sched arbitrary: w)
  case Nil
  then show ?case
    by (cases "complete w") (auto simp: waitForIceCandidates_complete waitForIceCandidates_Nil)
next
  case (Cons occ sched)
  show ?case
  proof (cases "complete w")
    case True
    then have "p = Fulfilled ()" "sched' = occ # sched" "w' = w"
      using Cons.prems by (simp_all add: waitForIceCandidates_complete)
    then show ?thesis using True by auto
  next
    case False
    have step: "waitForIceCandidates (occ # sched) w = waitForIceCandidates sched (leftover [occ] w)"
      using False
      by (cases occ) (simp_all add: waitForIceCandidates_Settle waitForIceCandidates_Fire)
    then have "waitForIceCandidates sched (leftover [occ] w) = (p, sched', w')"
      using Cons.prems by simp
    from Cons.IH [OF this] obtain used where
      u: "sched = used @ sched'" "w' = leftover used (leftover [occ] w)"
        "\<forall>n < length used. \<not> complete (leftover (take n used) (leftover [occ] w))"
      and p: "if complete w' then p = Fulfilled () else p = Unsettled \<and> sched' = []"
      by blast
    have l: "leftover (occ # xs) w = leftover xs (leftover [occ] w)" for xs
      by (cases occ) simp_all
    have "\<not> complete (leftover (take n (occ # used)) w)" if "n < length (occ # used)" for n
    proof (cases n)
      case 0
      then show ?thesis using False by simp
    next
      case (Suc m)
      then show ?thesis using u(3) that by (simp add: l [of "take m used"])
    qed
    then have "occ # sched = (occ # used) @ sched' \<and> w' = leftover (occ # used) w
      \<and> (\<forall>n < length (occ # used). \<not> complete (leftover (take n (occ # used)) w))"
      using u(1,2) by (simp add: l [of used])
    then show ?thesis using p by blast
  qed
qed


section \<open>Steps of the session functions\<close>

lemma andThen_Fulfilled: "andThen (Fulfilled x, sched, w) k = k x sched w"
  by (simp add: andThen_def)

lemma andThen_Rejected: "andThen (Rejected e, sched, w) k = (Rejected e, sched, w)"
  by (simp add: andThen_def)

lemma andThen_Unsettled: "andThen (Unsettled, sched, w) k = (Unsettled, sched, w)"
  by (simp add: andThen_def)

lemma andThen_is_Fulfilled:
  assumes "andThen r k = (Fulfilled y, sched', w')"
  obtains x sched1 w1 where "r = (Fulfilled x, sched1, w1)" and "k x sched1 w1 = (Fulfilled y, sched', w')"
proof -
  obtain p sched1 w1 where r: "r = (p, sched1, w1)" by (cases r)
  show ?thesis
    using assms that unfolding r by (cases p) (simp_all add: andThen_def)
qed

text \<open>The part of the peer connection that only calls change: all but the gathering state.\<close>

definition negotiated :: "controller \<Rightarrow> peer_connection" where
  "negotiated w = (peerConnection w)\<lparr>iceGatheringState := New\<rparr>"

lemma negotiated_dispatch: "negotiated (dispatch e w) = negotiated w"
  by (cases e) (simp_all add: negotiated_def handleIceCandidate_def handleDataChannel_def
      handleMessage_def showMessage_def split: option.splits)

lemma negotiated_leftover: "negotiated (leftover sched w) = negotiated w"
  by (induction sched w rule: leftover.induct) (simp_all add: negotiated_dispatch del: dispatch.simps)

lemma negotiated_showMessage: "negotiated (showMessage m w) = negotiated w"
  by (simp add: negotiated_def showMessage_def)

lemma negotiated_fields:
  "calls (negotiated w) = calls (peerConnection w)"
  "localDescription (negotiated w) = localDescription (peerConnection w)"
  "remoteDescription (negotiated w) = remoteDescription (peerConnection w)"
  "remoteCandidates (negotiated w) = remoteCandidates (peerConnection w)"
  by (simp_all add: negotiated_def)

lemma await_leftover:
  "await sched w = (p, sched', w') \<Longrightarrow> \<exists>used. sched = used @ sched' \<and> w' = leftover used w"
proof (induction sched w rule: await.induct)
  case (1 w)
  then show ?case by simp
next
  case (2 sched w)
  then have "Settle # sched = [Settle] @ sched' \<and> w' = leftover [Settle] w" by simp
  then show ?case by blast
next
  case (3 e sched w)
  then obtain used where "sched = used @ sched'" "w' = leftover used (dispatch e w)"
    by auto
  then have "Fire e # sched = (Fire e # used) @ sched' \<and> w' = leftover (Fire e # used) w"
    by simp
  then show ?case by blast
qed

lemma negotiated_await: "await sched w = (p, sched', w') \<Longrightarrow> negotiated w' = negotiated w"
  using await_leftover [of sched w p sched' w'] by (auto simp: negotiated_leftover)

lemma negotiated_settle: "settle r sched w = (p, sched', w') \<Longrightarrow> negotiated w' = negotiated w"
proof -
  assume a: "settle r sched w = (p, sched', w')"
  obtain q s1 w1 where b: "await sched w = (q, s1, w1)" by (cases "await sched w")
  have "w' = w1"
    using a b by (cases q) (auto simp: settle_def andThen_def split: sum.splits)
  then show ?thesis using negotiated_await [OF b] by simp
qed

lemma settle_Fulfilled: "settle r sched w = (Fulfilled x, sched', w') \<Longrightarrow> r = Inr x"
proof -
  assume a: "settle r sched w = (Fulfilled x, sched', w')"
  obtain q s1 w1 where b: "await sched w = (q, s1, w1)" by (cases "await sched w")
  show ?thesis
    using a b by (cases q) (auto simp: settle_def andThen_def split: sum.splits)
qed

lemma negotiated_createSessionPayload:
  "createSessionPayload session sched w = (p, sched', w') \<Longrightarrow> negotiated w' = negotiated w"
proof -
  assume a: "createSessionPayload session sched w = (p, sched', w')"
  obtain q s1 w1 where b: "waitForIceCandidates sched w = (q, s1, w1)"
    by (cases "waitForIceCandidates sched w")
  have "w' = w1"
    using a b by (cases q) (auto simp: createSessionPayload_def andThen_def split: sum.splits)
  moreover have "negotiated w1 = negotiated w"
    using waitForIceCandidates_first [OF b] by (auto simp: negotiated_leftover)
  ultimately show ?thesis by simp
qed

lemma createAnswer_Fulfilled:
  assumes "createAnswer E iceRestart sched w = (Fulfilled answer, sched', w')"
  shows "createAnswer_result E (peerConnection w) = Inr answer"
    and "negotiated w' = called (CreateAnswer iceRestart) (negotiated w)"
  using assms settle_Fulfilled [OF assms [unfolded createAnswer_def]]
    negotiated_settle [OF assms [unfolded createAnswer_def]]
  by (simp_all add: negotiated_def called_def)

lemma createOffer_Fulfilled:
  assumes "createOffer E iceRestart sched w = (Fulfilled offer, sched', w')"
  shows "createOffer_result E (peerConnection w) = Inr offer"
    and "negotiated w' = called (CreateOffer iceRestart) (negotiated w)"
  using assms settle_Fulfilled [OF assms [unfolded createOffer_def]]
    negotiated_settle [OF assms [unfolded createOffer_def]]
  by (simp_all add: negotiated_def called_def)

lemma setLocalDescription_Fulfilled:
  assumes "setLocalDescription E d sched w = (Fulfilled u, sched', w')"
  shows "setLocalDescription_error E (peerConnection w) d = None"
    and "negotiated w' = called (SetLocalDescription d) ((negotiated w)\<lparr>localDescription := Some d\<rparr>)"
proof -
  show ok: "setLocalDescription_error E (peerConnection w) d = None"
  proof (rule ccontr)
    assume "setLocalDescription_error E (peerConnection w) d \<noteq> None"
    then obtain e where "setLocalDescription_error E (peerConnection w) d = Some e" by auto
    then show False
      using assms settle_Fulfilled [of "Inl e" sched _ u sched' w']
      by (simp add: setLocalDescription_def)
  qed
  have "settle (Inr ()) sched
          (w\<lparr>peerConnection := called (SetLocalDescription d) ((peerConnection w)\<lparr>localDescription := Some d\<rparr>)\<rparr>)
        = (Fulfilled u, sched', w')"
    using assms ok by (simp add: setLocalDescription_def Let_def)
  from negotiated_settle [OF this]
  show "negotiated w' = called (SetLocalDescription d) ((negotiated w)\<lparr>localDescription := Some d\<rparr>)"
    by (simp add: negotiated_def called_def)
qed

lemma setRemoteDescription_Fulfilled:
  assumes "setRemoteDescription E d sched w = (Fulfilled u, sched', w')"
  shows "setRemoteDescription_error E (peerConnection w) d = None"
    and "negotiated w' = called (SetRemoteDescription d) ((negotiated w)\<lparr>remoteDescription := Some d\<rparr>)"
proof -
  show ok: "setRemoteDescription_error E (peerConnection w) d = None"
  proof (rule ccontr)
    assume "setRemoteDescription_error E (peerConnection w) d \<noteq> None"
    then obtain e where "setRemoteDescription_error E (peerConnection w) d = Some e" by auto
    then show False
      using assms settle_Fulfilled [of "Inl e" sched _ u sched' w']
      by (simp add: setRemoteDescription_def)
  qed
  have "settle (Inr ()) sched
          (w\<lparr>peerConnection := called (SetRemoteDescription d) ((peerConnection w)\<lparr>remoteDescription := Some d\<rparr>)\<rparr>)
        = (Fulfilled u, sched', w')"
    using assms ok by (simp add: setRemoteDescription_def Let_def)
  from negotiated_settle [OF this]
  show "negotiated w' = called (SetRemoteDescription d) ((negotiated w)\<lparr>remoteDescription := Some d\<rparr>)"
    by (simp add: negotiated_def called_def)
qed



lemma addIceCandidate_all_calls:
  "calls (snd (addIceCandidate_all E cs pc)) = calls pc @ map AddIceCandidate cs"
  by (induction cs arbitrary: pc) (simp_all add: called_def split: option.splits)





lemma addIceCandidates_array:
  assumes "addIceCandidate_all E cs (peerConnection w) = (r, pc)"
  shows "addIceCandidates E (Some (JArray cs)) sched w
           = (if cs = [] then (Fulfilled (), sched, w)
              else settle (case r of Some e \<Rightarrow> Inl e | None \<Rightarrow> Inr ()) sched
                     (w\<lparr>peerConnection := pc\<rparr>))"
  using assms by (simp add: addIceCandidates_def)

text \<open>
  A payload decodes to something \<^verbatim>\<open>joinSession\<close> can take apart: a value that is not
  \<^verbatim>\<open>null\<close>, with a \<^verbatim>\<open>session\<close> that is not \<^verbatim>\<open>null\<close>, whose \<^verbatim>\<open>sdp\<close> is displayed as \<open>shown\<close>
  and of which \<^verbatim>\<open>new RTCSessionDescription\<close> makes a description.
\<close>

definition decoded :: "engine \<Rightarrow> jsstring \<Rightarrow> json \<Rightarrow> json \<Rightarrow> jsstring \<Rightarrow> bool" where
  "decoded E response parsed session shown \<longleftrightarrow>
     parseSessionPayload response = Inr parsed \<and> parsed \<noteq> JNull
     \<and> property parsed (str ''session'') = Some session \<and> session \<noteq> JNull
     \<and> template (property session (str ''sdp'')) = Inr shown
     \<and> newRTCSessionDescription_error E session = None"

lemma joinSession_decoded:
  assumes "decoded E response parsed session shown"
  shows "joinSession E response sched w =
     andThen (setRemoteDescription E session sched (showMessage (str ''joining: '' @ shown) w))
       (\<lambda>_ sched1 w1.
        andThen (addIceCandidates E (property parsed (str ''iceCandidates'')) sched1 w1)
          (\<lambda>_ sched2 w2.
           if property session (str ''type'') = Some (JString (str ''answer'')) then
             (Fulfilled (), sched2, showMessage (str ''Finished session setup!'') w2)
           else
             andThen (createAnswer E True sched2 w2) (\<lambda>answer sched3 w3.
             andThen (setLocalDescription E answer sched3 w3) (\<lambda>_ sched4 w4.
             andThen (createSessionPayload answer sched4 w4) (\<lambda>payload sched5 w5.
               (Fulfilled (), sched5, showMessage (str ''Answer: '' @ payload) w5))))))"
  using assms by (simp add: decoded_def joinSession_def)


section \<open>Payloads are made when the gathering is complete\<close>

lemma createSessionPayload_complete:
  assumes "createSessionPayload session sched w = (Fulfilled payload, sched', w')"
  shows "iceGatheringState (peerConnection w') = Complete"
    and "btoa (JSON_stringify (payload_json session (iceCandidates w'))) = Inr payload"
proof -
  have "waitForIceCandidates sched w = (Fulfilled (), sched', w')"
    using createSessionPayload_Fulfilled(1) [OF assms] .
  from waitForIceCandidates_first [OF this]
  show "iceGatheringState (peerConnection w') = Complete"
    by (auto simp: complete_def split: if_splits)
  show "btoa (JSON_stringify (payload_json session (iceCandidates w'))) = Inr payload"
    using createSessionPayload_Fulfilled(2) [OF assms] .
qed

text \<open>A payload was made of the session \<open>d\<close> in the controller \<open>w\<close>, its gathering complete.\<close>

definition packaged :: "session_description \<Rightarrow> jsstring \<Rightarrow> controller \<Rightarrow> bool" where
  "packaged d payload w \<longleftrightarrow>
     iceGatheringState (peerConnection w) = Complete
     \<and> btoa (JSON_stringify (payload_json d (iceCandidates w))) = Inr payload"

lemma hostSession_packaged:
  assumes "hostSession E sched w = (Fulfilled u, sched', w')"
  shows "\<exists>offer payload w3. packaged offer payload w3 \<and> w' = showMessage (str ''Offer: '' @ payload) w3"
proof -
  from assms [unfolded hostSession_def] obtain offer s1 w1 where
    "andThen (setLocalDescription E offer s1 w1) (\<lambda>_ sched2 w2.
       andThen (createSessionPayload offer sched2 w2) (\<lambda>payload sched3 w3.
         (Fulfilled (), sched3, showMessage (str ''Offer: '' @ payload) w3)))
       = (Fulfilled u, sched', w')"
    by (rule andThen_is_Fulfilled)
  then obtain u2 s2 w2 where
    "andThen (createSessionPayload offer s2 w2) (\<lambda>payload sched3 w3.
         (Fulfilled (), sched3, showMessage (str ''Offer: '' @ payload) w3))
       = (Fulfilled u, sched', w')"
    by (rule andThen_is_Fulfilled)
  then obtain payload s3 w3 where
    c: "createSessionPayload offer s2 w2 = (Fulfilled payload, s3, w3)"
    and "(Fulfilled (), s3, showMessage (str ''Offer: '' @ payload) w3) = (Fulfilled u, sched', w')"
    by (rule andThen_is_Fulfilled)
  then show ?thesis
    using createSessionPayload_complete [OF c] by (auto simp: packaged_def)
qed

lemma joinSession_packaged:
  assumes "joinSession E response sched w = (Fulfilled u, sched', w')"
  shows "(\<exists>w2. w' = showMessage (str ''Finished session setup!'') w2)
         \<or> (\<exists>answer payload w5. packaged answer payload w5
               \<and> w' = showMessage (str ''Answer: '' @ payload) w5)"
proof -
  obtain parsed session shown where d: "decoded E response parsed session shown"
    using assms
    by (auto simp: joinSession_def decoded_def Let_def
        split: sum.splits option.splits if_splits)
  from assms [unfolded joinSession_decoded [OF d]] obtain u1 s1 w1 where
    "andThen (addIceCandidates E (property parsed (str ''iceCandidates'')) s1 w1)
       (\<lambda>_ sched2 w2.
          if property session (str ''type'') = Some (JString (str ''answer'')) then
            (Fulfilled (), sched2, showMessage (str ''Finished session setup!'') w2)
          else
            andThen (createAnswer E True sched2 w2) (\<lambda>answer sched3 w3.
            andThen (setLocalDescription E answer sched3 w3) (\<lambda>_ sched4 w4.
            andThen (createSessionPayload answer sched4 w4) (\<lambda>payload sched5 w5.
              (Fulfilled (), sched5, showMessage (str ''Answer: '' @ payload) w5)))))
       = (Fulfilled u, sched', w')"
    by (rule andThen_is_Fulfilled)
  then obtain u2 s2 w2 where
    branch: "(if property session (str ''type'') = Some (JString (str ''answer'')) then
            (Fulfilled (), s2, showMessage (str ''Finished session setup!'') w2)
          else
            andThen (createAnswer E True s2 w2) (\<lambda>answer sched3 w3.
            andThen (setLocalDescription E answer sched3 w3) (\<lambda>_ sched4 w4.
            andThen (createSessionPayload answer sched4 w4) (\<lambda>payload sched5 w5.
              (Fulfilled (), sched5, showMessage (str ''Answer: '' @ payload) w5)))))
       = (Fulfilled u, sched', w')"
    by (rule andThen_is_Fulfilled)
  show ?thesis
  proof (cases "property session (str ''type'') = Some (JString (str ''answer''))")
    case True
    then show ?thesis using branch by auto
  next
    case False
    then have "andThen (createAnswer E True s2 w2) (\<lambda>answer sched3 w3.
            andThen (setLocalDescription E answer sched3 w3) (\<lambda>_ sched4 w4.
            andThen (createSessionPayload answer sched4 w4) (\<lambda>payload sched5 w5.
              (Fulfilled (), sched5, showMessage (str ''Answer: '' @ payload) w5))))
       = (Fulfilled u, sched', w')"
      using branch by simp
    then obtain answer s3 w3 where
      "andThen (setLocalDescription E answer s3 w3) (\<lambda>_ sched4 w4.
            andThen (createSessionPayload answer sched4 w4) (\<lambda>payload sched5 w5.
              (Fulfilled (), sched5, showMessage (str ''Answer: '' @ payload) w5)))
       = (Fulfilled u, sched', w')"
      by (rule andThen_is_Fulfilled)
    then obtain u4 s4 w4 where
      "andThen (createSessionPayload answer s4 w4) (\<lambda>payload sched5 w5.
              (Fulfilled (), sched5, showMessage (str ''Answer: '' @ payload) w5))
       = (Fulfilled u, sched', w')"
      by (rule andThen_is_Fulfilled)
    then obtain payload s5 w5 where
      c: "createSessionPayload answer s4 w4 = (Fulfilled payload, s5, w5)"
      and "(Fulfilled (), s5, showMessage (str ''Answer: '' @ payload) w5) = (Fulfilled u, sched', w')"
      by (rule andThen_is_Fulfilled)
    then show ?thesis
      using createSessionPayload_complete [OF c] by (auto simp: packaged_def)
  qed
qed

text \<open>
  C1. Of an execution of \<^verbatim>\<open>createSessionPayload\<close>: the controller it ends in is the one
  the occurrences used up have made of the controller it started in, and at no moment
  before was the gathering state \<^verbatim>\<open>complete\<close>, so the wait went on through every
  earlier change of state; when a payload is returned, the gathering state is
  \<^verbatim>\<open>complete\<close> and the payload is the encoding of the session with the buffer as it is
  then; and while the state is not \<^verbatim>\<open>complete\<close> there is no payload: the function is still
  waiting, all occurrences used up. The payloads \<^verbatim>\<open>hostSession\<close> and \<^verbatim>\<open>joinSession\<close> display
  are made that way.
\<close>

theorem payload_only_when_complete:
  "(createSessionPayload session sched w = (p, sched', w') \<longrightarrow>
     (\<exists>used. sched = used @ sched' \<and> w' = leftover used w
        \<and> (\<forall>n < length used. iceGatheringState (peerConnection (leftover (take n used) w)) \<noteq> Complete))
     \<and> (\<forall>payload. p = Fulfilled payload \<longrightarrow> packaged session payload w')
     \<and> (iceGatheringState (peerConnection w') \<noteq> Complete \<longrightarrow> p = Unsettled \<and> sched' = []))
   \<and> (hostSession E hsched hw = (Fulfilled (), hsched', hw') \<longrightarrow>
        (\<exists>offer payload w3. packaged offer payload w3
           \<and> hw' = showMessage (str ''Offer: '' @ payload) w3))
   \<and> (joinSession E response jsched jw = (Fulfilled (), jsched', jw') \<longrightarrow>
        (\<exists>w2. jw' = showMessage (str ''Finished session setup!'') w2)
        \<or> (\<exists>answer payload w5. packaged answer payload w5
              \<and> jw' = showMessage (str ''Answer: '' @ payload) w5))"
proof (intro conjI)
  show "hostSession E hsched hw = (Fulfilled (), hsched', hw') \<longrightarrow>
        (\<exists>offer payload w3. packaged offer payload w3
           \<and> hw' = showMessage (str ''Offer: '' @ payload) w3)"
    using hostSession_packaged by blast
  show "joinSession E response jsched jw = (Fulfilled (), jsched', jw') \<longrightarrow>
        (\<exists>w2. jw' = showMessage (str ''Finished session setup!'') w2)
        \<or> (\<exists>answer payload w5. packaged answer payload w5
              \<and> jw' = showMessage (str ''Answer: '' @ payload) w5)"
    using joinSession_packaged by blast
  show "createSessionPayload session sched w = (p, sched', w') \<longrightarrow>
     (\<exists>used. sched = used @ sched' \<and> w' = leftover used w
        \<and> (\<forall>n < length used. iceGatheringState (peerConnection (leftover (take n used) w)) \<noteq> Complete))
     \<and> (\<forall>payload. p = Fulfilled payload \<longrightarrow> packaged session payload w')
     \<and> (iceGatheringState (peerConnection w') \<noteq> Complete \<longrightarrow> p = Unsettled \<and> sched' = [])"
  proof
  assume a: "createSessionPayload session sched w = (p, sched', w')"
  obtain q s1 w1 where b: "waitForIceCandidates sched w = (q, s1, w1)"
    by (cases "waitForIceCandidates sched w")
  have q: "if complete w1 then q = Fulfilled () else q = Unsettled \<and> s1 = []"
    and used: "\<exists>used. sched = used @ s1 \<and> w1 = leftover used w
      \<and> (\<forall>n < length used. \<not> complete (leftover (take n used) w))"
    using waitForIceCandidates_first [OF b] by simp_all
  have same: "sched' = s1 \<and> w' = w1"
    using a b by (cases q) (auto simp: createSessionPayload_def andThen_def split: sum.splits)
  show "(\<exists>used. sched = used @ sched' \<and> w' = leftover used w
        \<and> (\<forall>n < length used. iceGatheringState (peerConnection (leftover (take n used) w)) \<noteq> Complete))
     \<and> (\<forall>payload. p = Fulfilled payload \<longrightarrow> packaged session payload w')
     \<and> (iceGatheringState (peerConnection w') \<noteq> Complete \<longrightarrow> p = Unsettled \<and> sched' = [])"
    unfolding packaged_def
  proof (intro conjI allI impI)
    show "\<exists>used. sched = used @ sched' \<and> w' = leftover used w
        \<and> (\<forall>n < length used. iceGatheringState (peerConnection (leftover (take n used) w)) \<noteq> Complete)"
      using used same by (simp add: complete_def)
  next
    fix payload assume f: "p = Fulfilled payload"
    then have w: "waitForIceCandidates sched w = (Fulfilled (), sched', w')"
      using createSessionPayload_Fulfilled(1) a by blast
    then show "iceGatheringState (peerConnection w') = Complete"
      using q b by (auto simp: complete_def split: if_splits)
    show "btoa (JSON_stringify (payload_json session (iceCandidates w'))) = Inr payload"
      using createSessionPayload_Fulfilled(2) a f by blast
  next
    assume n: "iceGatheringState (peerConnection w') \<noteq> Complete"
    then have "q = Unsettled \<and> s1 = []" using q same by (simp add: complete_def)
    then show "p = Unsettled" "sched' = []"
      using a b by (simp_all add: createSessionPayload_def andThen_def)
  qed
qed
qed

lemma gathering_example:
  "waitForIceCandidates gathering fresh = (Fulfilled (), [], leftover gathering fresh)"
  "iceCandidates (leftover gathering fresh) = [host_candidate]"
  "iceGatheringState (peerConnection (leftover gathering fresh)) = Complete"
  by (simp_all add: gathering_def waitForIceCandidates_Fire waitForIceCandidates_complete
      complete_def fresh_def new_connection_def handleIceCandidate_def)

text \<open>
  The witness: the gathering goes from \<^verbatim>\<open>new\<close> to \<^verbatim>\<open>gathering\<close>, finds the host candidate,
  and is complete; the payload holds the candidate.
\<close>

theorem payload_only_when_complete_witness:
  "createSessionPayload example_offer gathering fresh
     = (Fulfilled (str ''eyJzZXNzaW9uIjp7InR5cGUiOiJvZmZlciIsInNkcCI6InY9MCJ9LCJpY2VDYW5kaWRhdGVzIjpbeyJjYW5kaWRhdGUiOiJjYW5kaWRhdGU6MSAxIHVkcCAyMTIyMjYwMjIzIDE5Mi4wLjIuMSA1NDMyMSB0eXAgaG9zdCIsInNkcE1pZCI6IjAiLCJzZHBNTGluZUluZGV4IjowLCJ1c2VybmFtZUZyYWdtZW50IjpudWxsfV19''),
        [], leftover gathering fresh)
   \<and> iceGatheringState (peerConnection fresh) = New
   \<and> iceGatheringState (peerConnection (leftover (take 1 gathering) fresh)) = Gathering
   \<and> iceGatheringState (peerConnection (leftover gathering fresh)) = Complete
   \<and> iceCandidates (leftover gathering fresh) = [host_candidate]
   \<and> packaged example_offer
        (str ''eyJzZXNzaW9uIjp7InR5cGUiOiJvZmZlciIsInNkcCI6InY9MCJ9LCJpY2VDYW5kaWRhdGVzIjpbeyJjYW5kaWRhdGUiOiJjYW5kaWRhdGU6MSAxIHVkcCAyMTIyMjYwMjIzIDE5Mi4wLjIuMSA1NDMyMSB0eXAgaG9zdCIsInNkcE1pZCI6IjAiLCJzZHBNTGluZUluZGV4IjowLCJ1c2VybmFtZUZyYWdtZW50IjpudWxsfV19'')
        (leftover gathering fresh)"
proof -
  let ?payload = "str ''eyJzZXNzaW9uIjp7InR5cGUiOiJvZmZlciIsInNkcCI6InY9MCJ9LCJpY2VDYW5kaWRhdGVzIjpbeyJjYW5kaWRhdGUiOiJjYW5kaWRhdGU6MSAxIHVkcCAyMTIyMjYwMjIzIDE5Mi4wLjIuMSA1NDMyMSB0eXAgaG9zdCIsInNkcE1pZCI6IjAiLCJzZHBNTGluZUluZGV4IjowLCJ1c2VybmFtZUZyYWdtZW50IjpudWxsfV19''"
  have made: "createSessionPayload example_offer gathering fresh
      = (Fulfilled ?payload, [], leftover gathering fresh)"
    using btoa_example
    by (simp add: createSessionPayload_def gathering_example andThen_def)
  have states: "iceGatheringState (peerConnection fresh) = New"
    "iceGatheringState (peerConnection (leftover (take 1 gathering) fresh)) = Gathering"
    by (simp_all add: fresh_def new_connection_def gathering_def)
  show ?thesis
    using payload_only_when_complete [where session = example_offer and sched = gathering
        and w = fresh and p = "Fulfilled ?payload" and sched' = "[]"
        and w' = "leftover gathering fresh"]
      made states gathering_example
    by simp
qed

section \<open>Payloads that do not decode\<close>

text \<open>Two payloads without candidates, an offer and an answer, and what they decode to.\<close>

definition example_answer :: session_description where
  "example_answer = \<lparr>sdpType = Answer, sdp = Some (str ''v=0'')\<rparr>"

lemma latin1_example_answer: "latin1_session example_answer"
  by (simp add: latin1_session_def latin1_option_def latin1_str example_answer_def)

lemma btoa_offer:
  "btoa (JSON_stringify (payload_json example_offer []))
     = Inr (str ''eyJzZXNzaW9uIjp7InR5cGUiOiJvZmZlciIsInNkcCI6InY9MCJ9LCJpY2VDYW5kaWRhdGVzIjpbXX0='')"
proof -
  have "JSON_stringify (payload_json example_offer [])
     = str ''{'' @ 0x22 # str ''session'' @ 0x22 # str '':{'' @ 0x22 # str ''type'' @ 0x22
       # str '':'' @ 0x22 # str ''offer'' @ 0x22 # str '','' @ 0x22 # str ''sdp'' @ 0x22
       # str '':'' @ 0x22 # str ''v=0'' @ 0x22 # str ''},'' @ 0x22 # str ''iceCandidates'' @ 0x22
       # str '':[]}''"
    by (simp add: payload_json_def example_offer_def session_json_def str_def quote_def
        quote_unit_def leading_surrogate_def trailing_surrogate_def)
  then show ?thesis
    by (simp add: btoa_def str_def b64_char_def b64_padding_def)
qed

lemma btoa_answer:
  "btoa (JSON_stringify (payload_json example_answer []))
     = Inr (str ''eyJzZXNzaW9uIjp7InR5cGUiOiJhbnN3ZXIiLCJzZHAiOiJ2PTAifSwiaWNlQ2FuZGlkYXRlcyI6W119'')"
proof -
  have "JSON_stringify (payload_json example_answer [])
     = str ''{'' @ 0x22 # str ''session'' @ 0x22 # str '':{'' @ 0x22 # str ''type'' @ 0x22
       # str '':'' @ 0x22 # str ''answer'' @ 0x22 # str '','' @ 0x22 # str ''sdp'' @ 0x22
       # str '':'' @ 0x22 # str ''v=0'' @ 0x22 # str ''},'' @ 0x22 # str ''iceCandidates'' @ 0x22
       # str '':[]}''"
    by (simp add: payload_json_def example_answer_def session_json_def str_def quote_def
        quote_unit_def leading_surrogate_def trailing_surrogate_def)
  then show ?thesis
    by (simp add: btoa_def str_def b64_char_def b64_padding_def)
qed

lemma parse_example:
  assumes "btoa (JSON_stringify (payload_json d cs)) = Inr p"
    and "latin1_session d" and "\<forall>c \<in> set cs. latin1_candidate c"
  shows "parseSessionPayload p = Inr (payload_json d cs)"
  using decode_encode [OF encodable_payload [OF assms(2,3)]] assms(1) by auto

lemma parse_offer:
  "parseSessionPayload (str ''eyJzZXNzaW9uIjp7InR5cGUiOiJvZmZlciIsInNkcCI6InY9MCJ9LCJpY2VDYW5kaWRhdGVzIjpbXX0='')
     = Inr (payload_json example_offer [])"
  using parse_example [OF btoa_offer latin1_examples(1)] by simp

lemma parse_answer:
  "parseSessionPayload (str ''eyJzZXNzaW9uIjp7InR5cGUiOiJhbnN3ZXIiLCJzZHAiOiJ2PTAifSwiaWNlQ2FuZGlkYXRlcyI6W119'')
     = Inr (payload_json example_answer [])"
  using parse_example [OF btoa_answer latin1_example_answer] by simp






section \<open>Joining\<close>

lemma addIceCandidates_Fulfilled:
  assumes "addIceCandidates E cands sched w = (Fulfilled u, sched', w')"
  shows "\<exists>cs. cands = Some (JArray cs) \<and> fst (addIceCandidate_all E cs (peerConnection w)) = None
           \<and> negotiated w' = (snd (addIceCandidate_all E cs (peerConnection w)))\<lparr>iceGatheringState := New\<rparr>"
proof -
  obtain cs where c: "cands = Some (JArray cs)"
    using assms by (auto simp: addIceCandidates_def split: option.splits json.splits)
  obtain r pc where a: "addIceCandidate_all E cs (peerConnection w) = (r, pc)"
    by (cases "addIceCandidate_all E cs (peerConnection w)")
  show ?thesis
  proof (cases "cs = []")
    case True
    then show ?thesis using assms c by (simp add: addIceCandidates_def negotiated_def)
  next
    case False
    then have s: "settle (case r of Some e \<Rightarrow> Inl e | None \<Rightarrow> Inr ()) sched (w\<lparr>peerConnection := pc\<rparr>)
        = (Fulfilled u, sched', w')"
      using assms c addIceCandidates_array [OF a, of sched] by simp
    have "r = None" using settle_Fulfilled [OF s] by (cases r) auto
    moreover have "negotiated w' = pc\<lparr>iceGatheringState := New\<rparr>"
      using negotiated_settle [OF s] by (simp add: negotiated_def)
    ultimately show ?thesis using c a by simp
  qed
qed

lemma negotiated_eq:
  assumes "negotiated w' = pc\<lparr>iceGatheringState := New\<rparr>"
  shows "calls (peerConnection w') = calls pc"
    and "localDescription (peerConnection w') = localDescription pc"
    and "remoteDescription (peerConnection w') = remoteDescription pc"
    and "remoteCandidates (peerConnection w') = remoteCandidates pc"
proof -
  have "calls (negotiated w') = calls pc" "localDescription (negotiated w') = localDescription pc"
    "remoteDescription (negotiated w') = remoteDescription pc"
    "remoteCandidates (negotiated w') = remoteCandidates pc"
    unfolding assms by simp_all
  then show "calls (peerConnection w') = calls pc"
    and "localDescription (peerConnection w') = localDescription pc"
    and "remoteDescription (peerConnection w') = remoteDescription pc"
    and "remoteCandidates (peerConnection w') = remoteCandidates pc"
    by (simp_all add: negotiated_fields)
qed

lemma negotiated_same:
  assumes "negotiated w' = negotiated w"
  shows "calls (peerConnection w') = calls (peerConnection w)"
    and "localDescription (peerConnection w') = localDescription (peerConnection w)"
    and "remoteDescription (peerConnection w') = remoteDescription (peerConnection w)"
    and "remoteCandidates (peerConnection w') = remoteCandidates (peerConnection w)"
  using negotiated_eq [of w' "peerConnection w"] assms by (simp_all add: negotiated_def)



lemma join_calls:
  assumes "setRemoteDescription E session sched w0 = (Fulfilled (), sched1, w1)"
    and "addIceCandidates E cands sched1 w1 = (Fulfilled (), sched2, w2)"
  shows "\<exists>cs. cands = Some (JArray cs)
           \<and> calls (peerConnection w2)
               = calls (peerConnection w0) @ SetRemoteDescription session # map AddIceCandidate cs"
proof -
  obtain cs where c: "cands = Some (JArray cs)"
    and n: "negotiated w2 = (snd (addIceCandidate_all E cs (peerConnection w1)))\<lparr>iceGatheringState := New\<rparr>"
    using addIceCandidates_Fulfilled [OF assms(2)] by blast
  have "calls (negotiated w1) = calls (peerConnection w0) @ [SetRemoteDescription session]"
    unfolding setRemoteDescription_Fulfilled(2) [OF assms(1)]
    by (simp add: called_def negotiated_fields)
  then have "calls (peerConnection w1) = calls (peerConnection w0) @ [SetRemoteDescription session]"
    by (simp add: negotiated_fields)
  then have "calls (peerConnection w2)
      = calls (peerConnection w0) @ SetRemoteDescription session # map AddIceCandidate cs"
    using negotiated_eq(1) [OF n] by (simp add: addIceCandidate_all_calls)
  with c show ?thesis by blast
qed

lemma answer_calls:
  assumes "createAnswer E True sched2 w2 = (Fulfilled answer, sched3, w3)"
    and "setLocalDescription E answer sched3 w3 = (Fulfilled (), sched4, w4)"
    and "createSessionPayload answer sched4 w4 = (Fulfilled payload, sched5, w5)"
  shows "calls (peerConnection w5)
           = calls (peerConnection w2) @ [CreateAnswer True, SetLocalDescription answer]"
    and "localDescription (peerConnection w5) = Some answer"
proof -
  have 3: "negotiated w3 = called (CreateAnswer True) (negotiated w2)"
    using createAnswer_Fulfilled(2) [OF assms(1)] .
  have 4: "negotiated w4
      = called (SetLocalDescription answer) ((negotiated w3)\<lparr>localDescription := Some answer\<rparr>)"
    using setLocalDescription_Fulfilled(2) [OF assms(2)] .
  have 5: "negotiated w5 = negotiated w4"
    using negotiated_createSessionPayload [OF assms(3)] .
  have "calls (negotiated w5) = calls (peerConnection w2) @ [CreateAnswer True, SetLocalDescription answer]"
    and "localDescription (negotiated w5) = Some answer"
    unfolding 5 4 3 by (simp_all add: called_def negotiated_fields)
  then show "calls (peerConnection w5)
           = calls (peerConnection w2) @ [CreateAnswer True, SetLocalDescription answer]"
    and "localDescription (peerConnection w5) = Some answer"
    by (simp_all add: negotiated_fields)
qed

text \<open>
  C3, amended. Once the payload is decoded, the engine has accepted the remote
  description and every candidate, and the promises have settled: when the decoded
  type is \<^verbatim>\<open>answer\<close>, \<^verbatim>\<open>joinSession\<close> displays \<^verbatim>\<open>Finished session setup!\<close> and has made no
  call but \<^verbatim>\<open>setRemoteDescription\<close> and \<^verbatim>\<open>addIceCandidate\<close>; when it is anything else,
  \<^verbatim>\<open>offer\<close> included, and \<^verbatim>\<open>createAnswer\<close> (called with \<^verbatim>\<open>iceRestart: true\<close>),
  \<^verbatim>\<open>setLocalDescription\<close> and \<^verbatim>\<open>createSessionPayload\<close> are fulfilled, the answer is the
  local description and \<^verbatim>\<open>joinSession\<close> displays \<^verbatim>\<open>Answer:\<close> with a payload made of the
  answer when the gathering was complete.
\<close>

theorem join_branches:
  "decoded E response parsed session shown
   \<and> setRemoteDescription E session sched (showMessage (str ''joining: '' @ shown) w)
       = (Fulfilled (), sched1, w1)
   \<and> addIceCandidates E (property parsed (str ''iceCandidates'')) sched1 w1
       = (Fulfilled (), sched2, w2)
   \<longrightarrow>
     (property session (str ''type'') = Some (JString (str ''answer'')) \<longrightarrow>
        joinSession E response sched w
          = (Fulfilled (), sched2, showMessage (str ''Finished session setup!'') w2)
        \<and> (\<exists>cs. calls (peerConnection (showMessage (str ''Finished session setup!'') w2))
                   = calls (peerConnection w) @ SetRemoteDescription session # map AddIceCandidate cs))
     \<and> (property session (str ''type'') \<noteq> Some (JString (str ''answer''))
          \<and> createAnswer E True sched2 w2 = (Fulfilled answer, sched3, w3)
          \<and> setLocalDescription E answer sched3 w3 = (Fulfilled (), sched4, w4)
          \<and> createSessionPayload answer sched4 w4 = (Fulfilled payload, sched5, w5)
          \<longrightarrow>
        joinSession E response sched w
          = (Fulfilled (), sched5, showMessage (str ''Answer: '' @ payload) w5)
        \<and> packaged answer payload w5
        \<and> localDescription (peerConnection w5) = Some answer
        \<and> (\<exists>cs. calls (peerConnection w5)
                   = calls (peerConnection w) @ SetRemoteDescription session # map AddIceCandidate cs
                     @ [CreateAnswer True, SetLocalDescription answer]))"
proof (intro impI)
  assume a: "decoded E response parsed session shown
   \<and> setRemoteDescription E session sched (showMessage (str ''joining: '' @ shown) w)
       = (Fulfilled (), sched1, w1)
   \<and> addIceCandidates E (property parsed (str ''iceCandidates'')) sched1 w1
       = (Fulfilled (), sched2, w2)"
  then have d: "decoded E response parsed session shown"
    and remote: "setRemoteDescription E session sched (showMessage (str ''joining: '' @ shown) w)
       = (Fulfilled (), sched1, w1)"
    and added: "addIceCandidates E (property parsed (str ''iceCandidates'')) sched1 w1
       = (Fulfilled (), sched2, w2)"
    by simp_all
  obtain cs where
    calls2: "calls (peerConnection w2)
      = calls (peerConnection w) @ SetRemoteDescription session # map AddIceCandidate cs"
    using join_calls [OF remote added] by (auto simp: showMessage_def)
  have branch: "joinSession E response sched w =
      (if property session (str ''type'') = Some (JString (str ''answer'')) then
         (Fulfilled (), sched2, showMessage (str ''Finished session setup!'') w2)
       else
         andThen (createAnswer E True sched2 w2) (\<lambda>answer sched3 w3.
         andThen (setLocalDescription E answer sched3 w3) (\<lambda>_ sched4 w4.
         andThen (createSessionPayload answer sched4 w4) (\<lambda>payload sched5 w5.
           (Fulfilled (), sched5, showMessage (str ''Answer: '' @ payload) w5)))))"
    unfolding joinSession_decoded [OF d] remote andThen_Fulfilled added ..
  show "(property session (str ''type'') = Some (JString (str ''answer'')) \<longrightarrow>
        joinSession E response sched w
          = (Fulfilled (), sched2, showMessage (str ''Finished session setup!'') w2)
        \<and> (\<exists>cs. calls (peerConnection (showMessage (str ''Finished session setup!'') w2))
                   = calls (peerConnection w) @ SetRemoteDescription session # map AddIceCandidate cs))
     \<and> (property session (str ''type'') \<noteq> Some (JString (str ''answer''))
          \<and> createAnswer E True sched2 w2 = (Fulfilled answer, sched3, w3)
          \<and> setLocalDescription E answer sched3 w3 = (Fulfilled (), sched4, w4)
          \<and> createSessionPayload answer sched4 w4 = (Fulfilled payload, sched5, w5)
          \<longrightarrow>
        joinSession E response sched w
          = (Fulfilled (), sched5, showMessage (str ''Answer: '' @ payload) w5)
        \<and> packaged answer payload w5
        \<and> localDescription (peerConnection w5) = Some answer
        \<and> (\<exists>cs. calls (peerConnection w5)
                   = calls (peerConnection w) @ SetRemoteDescription session # map AddIceCandidate cs
                     @ [CreateAnswer True, SetLocalDescription answer]))"
  proof (intro conjI impI)
    assume "property session (str ''type'') = Some (JString (str ''answer''))"
    then show "joinSession E response sched w
          = (Fulfilled (), sched2, showMessage (str ''Finished session setup!'') w2)"
      using branch by simp
    show "\<exists>cs. calls (peerConnection (showMessage (str ''Finished session setup!'') w2))
                   = calls (peerConnection w) @ SetRemoteDescription session # map AddIceCandidate cs"
      using calls2 by (auto simp: showMessage_def)
  next
    assume b: "property session (str ''type'') \<noteq> Some (JString (str ''answer''))
          \<and> createAnswer E True sched2 w2 = (Fulfilled answer, sched3, w3)
          \<and> setLocalDescription E answer sched3 w3 = (Fulfilled (), sched4, w4)
          \<and> createSessionPayload answer sched4 w4 = (Fulfilled payload, sched5, w5)"
    then have ans: "createAnswer E True sched2 w2 = (Fulfilled answer, sched3, w3)"
      and loc: "setLocalDescription E answer sched3 w3 = (Fulfilled (), sched4, w4)"
      and pay: "createSessionPayload answer sched4 w4 = (Fulfilled payload, sched5, w5)"
      by simp_all
    show "joinSession E response sched w
          = (Fulfilled (), sched5, showMessage (str ''Answer: '' @ payload) w5)"
      using branch b by (simp add: andThen_Fulfilled)
    show "packaged answer payload w5"
      using createSessionPayload_complete [OF pay] by (simp add: packaged_def)
    show "localDescription (peerConnection w5) = Some answer"
      using answer_calls(2) [OF ans loc pay] .
    show "\<exists>cs. calls (peerConnection w5)
                   = calls (peerConnection w) @ SetRemoteDescription session # map AddIceCandidate cs
                     @ [CreateAnswer True, SetLocalDescription answer]"
      using answer_calls(1) [OF ans loc pay] calls2 by auto
  qed
qed

section \<open>Payloads to join with\<close>

lemma property_payload:
  "property (payload_json d cs) (str ''session'') = Some (session_json d)"
  "property (payload_json d cs) (str ''iceCandidates'') = Some (JArray (map candidate_json cs))"
  "property (session_json d) (str ''type'') = Some (JString (sdp_type_name (sdpType d)))"
  "property (session_json d) (str ''sdp'') = map_option JString (sdp d)"
  "payload_json d cs \<noteq> JNull" "session_json d \<noteq> JNull"
  by (simp_all add: payload_json_def session_json_def str_def split: option.splits)

lemma decoded_payload:
  assumes "parseSessionPayload response = Inr (payload_json d cs)" and "sdp d = Some s"
    and "newRTCSessionDescription_error E (session_json d) = None"
  shows "decoded E response (payload_json d cs) (session_json d) s"
  using assms by (simp add: decoded_def property_payload template_def)








section \<open>Two sessions\<close>

text \<open>
  The payloads of \<^verbatim>\<open>{session: {type: "offer", sdp: "v=0"}, iceCandidates: []}\<close> and of the
  same with \<^verbatim>\<open>answer\<close>.
\<close>

definition offer_payload :: jsstring where
  "offer_payload = str ''eyJzZXNzaW9uIjp7InR5cGUiOiJvZmZlciIsInNkcCI6InY9MCJ9LCJpY2VDYW5kaWRhdGVzIjpbXX0=''"

definition answer_payload :: jsstring where
  "answer_payload = str ''eyJzZXNzaW9uIjp7InR5cGUiOiJhbnN3ZXIiLCJzZHAiOiJ2PTAifSwiaWNlQ2FuZGlkYXRlcyI6W119''"

text \<open>
  An engine that, like a browser, rejects an answer as remote description when no offer
  was set as local description.
\<close>

definition strict :: engine where
  "strict =
     accepting\<lparr>setRemoteDescription_error :=
       (\<lambda>pc d. if property d (str ''type'') = Some (JString (str ''answer''))
                     \<and> localDescription pc = None
                then Some (EngineError (str ''InvalidStateError'')) else None)\<rparr>"



lemma parse_payloads:
  "parseSessionPayload offer_payload = Inr (payload_json example_offer [])"
  "parseSessionPayload answer_payload = Inr (payload_json example_answer [])"
  using parse_offer parse_answer by (simp_all add: offer_payload_def answer_payload_def)

text \<open>
  Against C3 as stated: the payload of an answer is joined on a controller that has made
  no offer; the engine rejects the remote description, \<^verbatim>\<open>joinSession\<close> is rejected and
  the textarea holds the \<^verbatim>\<open>joining:\<close> line only.
\<close>

theorem answer_not_reported:
  "parseSessionPayload answer_payload = Inr (payload_json example_answer [])
   \<and> property (session_json example_answer) (str ''type'') = Some (JString (str ''answer''))
   \<and> joinSession strict answer_payload [Settle] fresh
       = (Rejected (EngineError (str ''InvalidStateError'')), [],
          fresh\<lparr>peerConnection :=
                  new_connection\<lparr>calls := [SetRemoteDescription (session_json example_answer)]\<rparr>,
                messenger := 0x0A # str ''joining: v=0''\<rparr>)"
proof -
  let ?S = "session_json example_answer"
  have t: "property ?S (str ''type'') = Some (JString (str ''answer''))"
    by (simp add: property_payload example_answer_def)
  have d: "decoded strict answer_payload (payload_json example_answer []) ?S (str ''v=0'')"
    by (rule decoded_payload [OF parse_payloads(2)])
       (simp_all add: example_answer_def strict_def accepting_def)
  have "setRemoteDescription strict ?S [Settle] (showMessage (str ''joining: '' @ str ''v=0'') fresh)
      = (Rejected (EngineError (str ''InvalidStateError'')), [],
         fresh\<lparr>peerConnection := new_connection\<lparr>calls := [SetRemoteDescription ?S]\<rparr>,
               messenger := 0x0A # str ''joining: v=0''\<rparr>)"
    using t
    by (simp add: setRemoteDescription_def settle_def andThen_def strict_def accepting_def
        called_def showMessage_def fresh_def new_connection_def)
       (simp add: str_def)
  then show ?thesis
    using parse_payloads(2) t by (simp add: joinSession_decoded [OF d] andThen_Rejected)
qed

text \<open>
  The witness for C3: with an engine that accepts everything, the payload of an answer
  ends in \<^verbatim>\<open>Finished session setup!\<close> after the one call, and the payload of an offer
  ends in \<^verbatim>\<open>Answer:\<close> with the payload of the answer the engine created.
\<close>

theorem join_branches_witness:
  "decoded accepting answer_payload (payload_json example_answer [])
     (session_json example_answer) (str ''v=0'')
   \<and> property (session_json example_answer) (str ''type'') = Some (JString (str ''answer''))
   \<and> joinSession accepting answer_payload [Settle] fresh
       = (Fulfilled (), [],
          fresh\<lparr>peerConnection :=
                  new_connection
                    \<lparr>remoteDescription := Some (session_json example_answer),
                     calls := [SetRemoteDescription (session_json example_answer)]\<rparr>,
                messenger := 0x0A # str ''joining: v=0'' @ 0x0A # str ''Finished session setup!''\<rparr>)
   \<and> decoded accepting offer_payload (payload_json example_offer [])
       (session_json example_offer) (str ''v=0'')
   \<and> property (session_json example_offer) (str ''type'') \<noteq> Some (JString (str ''answer''))
   \<and> joinSession accepting offer_payload
         [Settle, Settle, Settle, Fire (IceGatheringStateChange Complete)] fresh
       = (Fulfilled (), [],
          fresh\<lparr>peerConnection :=
                  \<lparr>iceGatheringState = Complete, localDescription = Some example_answer,
                   remoteDescription = Some (session_json example_offer), remoteCandidates = [],
                   calls = [SetRemoteDescription (session_json example_offer), CreateAnswer True,
                            SetLocalDescription example_answer]\<rparr>,
                messenger := 0x0A # str ''joining: v=0'' @ 0x0A # str ''Answer: '' @ answer_payload\<rparr>)"
proof -
  let ?A = "session_json example_answer"
  let ?O = "session_json example_offer"
  let ?w0 = "showMessage (str ''joining: '' @ str ''v=0'') fresh"
  let ?a1 = "?w0\<lparr>peerConnection := new_connection\<lparr>remoteDescription := Some ?A, calls := [SetRemoteDescription ?A]\<rparr>\<rparr>"
  let ?o1 = "?w0\<lparr>peerConnection := new_connection\<lparr>remoteDescription := Some ?O, calls := [SetRemoteDescription ?O]\<rparr>\<rparr>"
  let ?o3 = "?w0\<lparr>peerConnection := new_connection\<lparr>remoteDescription := Some ?O,
      calls := [SetRemoteDescription ?O, CreateAnswer True]\<rparr>\<rparr>"
  let ?o4 = "?w0\<lparr>peerConnection := new_connection\<lparr>localDescription := Some example_answer,
      remoteDescription := Some ?O,
      calls := [SetRemoteDescription ?O, CreateAnswer True, SetLocalDescription example_answer]\<rparr>\<rparr>"
  let ?o5 = "?w0\<lparr>peerConnection := new_connection\<lparr>iceGatheringState := Complete,
      localDescription := Some example_answer, remoteDescription := Some ?O,
      calls := [SetRemoteDescription ?O, CreateAnswer True, SetLocalDescription example_answer]\<rparr>\<rparr>"
  have ta: "property ?A (str ''type'') = Some (JString (str ''answer''))"
    by (simp add: property_payload example_answer_def)
  have to: "property ?O (str ''type'') \<noteq> Some (JString (str ''answer''))"
    unfolding property_payload by (simp add: example_offer_def str_def)
  have da: "decoded accepting answer_payload (payload_json example_answer []) ?A (str ''v=0'')"
    by (rule decoded_payload [OF parse_payloads(2)]) (simp_all add: example_answer_def accepting_def)
  have do: "decoded accepting offer_payload (payload_json example_offer []) ?O (str ''v=0'')"
    by (rule decoded_payload [OF parse_payloads(1)]) (simp_all add: example_offer_def accepting_def)
  have a1: "setRemoteDescription accepting ?A [Settle] ?w0 = (Fulfilled (), [], ?a1)"
    by (simp add: setRemoteDescription_def settle_def andThen_def accepting_def
        called_def showMessage_def fresh_def new_connection_def)
  have a2: "addIceCandidates accepting (property (payload_json example_answer []) (str ''iceCandidates'')) [] ?a1
      = (Fulfilled (), [], ?a1)"
    by (simp add: property_payload addIceCandidates_def)
  have o1: "setRemoteDescription accepting ?O
        [Settle, Settle, Settle, Fire (IceGatheringStateChange Complete)] ?w0
      = (Fulfilled (), [Settle, Settle, Fire (IceGatheringStateChange Complete)], ?o1)"
    by (simp add: setRemoteDescription_def settle_def andThen_def accepting_def
        called_def showMessage_def fresh_def new_connection_def)
  have o2: "addIceCandidates accepting (property (payload_json example_offer []) (str ''iceCandidates''))
        [Settle, Settle, Fire (IceGatheringStateChange Complete)] ?o1
      = (Fulfilled (), [Settle, Settle, Fire (IceGatheringStateChange Complete)], ?o1)"
    by (simp add: property_payload addIceCandidates_def)
  have o3: "createAnswer accepting True [Settle, Settle, Fire (IceGatheringStateChange Complete)] ?o1
      = (Fulfilled example_answer, [Settle, Fire (IceGatheringStateChange Complete)], ?o3)"
    by (simp add: createAnswer_def settle_def andThen_def accepting_def called_def
        example_answer_def showMessage_def fresh_def new_connection_def)
  have o4: "setLocalDescription accepting example_answer
        [Settle, Fire (IceGatheringStateChange Complete)] ?o3
      = (Fulfilled (), [Fire (IceGatheringStateChange Complete)], ?o4)"
    by (simp add: setLocalDescription_def settle_def andThen_def accepting_def called_def
        showMessage_def fresh_def new_connection_def)
  have wait: "waitForIceCandidates [Fire (IceGatheringStateChange Complete)] ?o4 = (Fulfilled (), [], ?o5)"
    by (simp add: waitForIceCandidates_Fire waitForIceCandidates_complete complete_def
        showMessage_def fresh_def new_connection_def)
  have "iceCandidates ?o5 = []" by (simp add: showMessage_def fresh_def)
  then have o5: "createSessionPayload example_answer [Fire (IceGatheringStateChange Complete)] ?o4
      = (Fulfilled answer_payload, [], ?o5)"
    using btoa_answer by (simp add: createSessionPayload_def wait andThen_def answer_payload_def)
  have shown_a: "showMessage (str ''Finished session setup!'') ?a1
      = fresh\<lparr>peerConnection :=
                  new_connection\<lparr>remoteDescription := Some ?A, calls := [SetRemoteDescription ?A]\<rparr>,
                messenger := 0x0A # str ''joining: v=0'' @ 0x0A # str ''Finished session setup!''\<rparr>"
    by (simp add: showMessage_def fresh_def str_def)
  have plain: "normalize_newlines (0x0A # str ''joining: v=0'' @ 0x0A # str ''Answer: '' @ answer_payload)
      = 0x0A # str ''joining: v=0'' @ 0x0A # str ''Answer: '' @ answer_payload"
    by (simp add: str_def answer_payload_def)
  have shown_o: "showMessage (str ''Answer: '' @ answer_payload) ?o5
      = fresh\<lparr>peerConnection :=
                  \<lparr>iceGatheringState = Complete, localDescription = Some example_answer,
                   remoteDescription = Some ?O, remoteCandidates = [],
                   calls = [SetRemoteDescription ?O, CreateAnswer True,
                            SetLocalDescription example_answer]\<rparr>,
                messenger := 0x0A # str ''joining: v=0'' @ 0x0A # str ''Answer: '' @ answer_payload\<rparr>"
    using plain by (simp add: showMessage_def fresh_def new_connection_def) (simp add: str_def)
  have ja: "joinSession accepting answer_payload [Settle] fresh
      = (Fulfilled (), [],
         fresh\<lparr>peerConnection :=
                 new_connection\<lparr>remoteDescription := Some ?A, calls := [SetRemoteDescription ?A]\<rparr>,
               messenger := 0x0A # str ''joining: v=0'' @ 0x0A # str ''Finished session setup!''\<rparr>)"
    using join_branches [where E = accepting and response = answer_payload
        and parsed = "payload_json example_answer []" and session = ?A and shown = "str ''v=0''"
        and sched = "[Settle]" and w = fresh and ?sched1.0 = "[]" and ?w1.0 = ?a1
        and ?sched2.0 = "[]" and ?w2.0 = ?a1]
      da ta a1 a2
    unfolding shown_a by simp
  have jo: "joinSession accepting offer_payload
        [Settle, Settle, Settle, Fire (IceGatheringStateChange Complete)] fresh
      = (Fulfilled (), [],
         fresh\<lparr>peerConnection :=
                 \<lparr>iceGatheringState = Complete, localDescription = Some example_answer,
                  remoteDescription = Some ?O, remoteCandidates = [],
                  calls = [SetRemoteDescription ?O, CreateAnswer True,
                           SetLocalDescription example_answer]\<rparr>,
               messenger := 0x0A # str ''joining: v=0'' @ 0x0A # str ''Answer: '' @ answer_payload\<rparr>)"
    using join_branches [where E = accepting and response = offer_payload
        and parsed = "payload_json example_offer []" and session = ?O and shown = "str ''v=0''"
        and sched = "[Settle, Settle, Settle, Fire (IceGatheringStateChange Complete)]"
        and w = fresh
        and ?sched1.0 = "[Settle, Settle, Fire (IceGatheringStateChange Complete)]" and ?w1.0 = ?o1
        and ?sched2.0 = "[Settle, Settle, Fire (IceGatheringStateChange Complete)]" and ?w2.0 = ?o1
        and answer = example_answer
        and ?sched3.0 = "[Settle, Fire (IceGatheringStateChange Complete)]" and ?w3.0 = ?o3
        and ?sched4.0 = "[Fire (IceGatheringStateChange Complete)]" and ?w4.0 = ?o4
        and payload = answer_payload and ?sched5.0 = "[]" and ?w5.0 = ?o5]
      do to o1 o2 o3 o4 o5
    unfolding shown_o by blast
  from da ta ja do to jo show ?thesis by (intro conjI)
qed

end
